theory Spec2Isabelle
  imports Complex_Main "HOL-Library.Word"
begin

unbundle bit_operations_syntax

section \<open>The GPU monitor of \<^verbatim>\<open>gpu_benchmark/gpu_monitor_nvml.cpp\<close>\<close>

text \<open>
  The monitor is one \<^verbatim>\<open>main\<close>: it forks and executes a command, polls the child with a
  non-blocking \<^verbatim>\<open>waitpid\<close>, reads five NVML metrics per iteration, averages them and
  writes nine \<^verbatim>\<open>key=value\<close> lines. Everything the operating system, the NVML library and
  the clocks answer is an input of the model (a \<open>world\<close>); everything the program does is
  in its result: how the process ends, the files afterwards, and the calls it made.
\<close>

subsection \<open>Machine types\<close>

type_synonym unsigned_int = "32 word"
type_synonym long = "64 word"

text \<open>
  \<^verbatim>\<open>double\<close> stays abstract: a carrier \<open>'d\<close> with the operations the program uses.
  No law is assumed of them, so what is proved holds for IEEE doubles with rounding as much
  as for exact arithmetic. \<open>d_of_int\<close> is the conversion of an integer value
  (\<^verbatim>\<open>unsigned int\<close>, \<^verbatim>\<open>long\<close>, \<^verbatim>\<open>size_t\<close>, and the literals \<^verbatim>\<open>0.0\<close> and \<^verbatim>\<open>1000.0\<close>);
  \<open>d_fixed3\<close> is what \<^verbatim>\<open>ofs << std::fixed << std::setprecision(3) << x\<close> prints.
\<close>

record 'd fp =
  d_of_int :: "int \<Rightarrow> 'd"
  d_add :: "'d \<Rightarrow> 'd \<Rightarrow> 'd"
  d_mul :: "'d \<Rightarrow> 'd \<Rightarrow> 'd"
  d_div :: "'d \<Rightarrow> 'd \<Rightarrow> 'd"
  d_fixed3 :: "'d \<Rightarrow> string"

subsection \<open>What the platform answers\<close>

datatype nvmlReturn_t = NVML_SUCCESS | NVML_ERROR nat

text \<open>
  One call of \<^verbatim>\<open>waitpid(pid, &status, flags)\<close>: it returns \<open>pid\<close> and stores the wait status,
  or returns 0 (with \<^verbatim>\<open>WNOHANG\<close>, the child has not changed state), or fails with -1.
\<close>

datatype waitpid_result = Reaped int | StillRunning | WaitFailed

fun waitpid_ret :: "int \<Rightarrow> waitpid_result \<Rightarrow> int" where
  "waitpid_ret pid (Reaped s) = pid"
| "waitpid_ret pid StillRunning = 0"
| "waitpid_ret pid WaitFailed = - 1"

fun waitpid_status :: "int \<Rightarrow> waitpid_result \<Rightarrow> int" where
  "waitpid_status old (Reaped s) = s"
| "waitpid_status old StillRunning = old"
| "waitpid_status old WaitFailed = old"

fun is_reaped :: "waitpid_result \<Rightarrow> bool" where
  "is_reaped (Reaped s) = True"
| "is_reaped StillRunning = False"
| "is_reaped WaitFailed = False"

text \<open>
  What the platform answers during one iteration of the sampling loop: the non-blocking
  \<^verbatim>\<open>waitpid\<close>, then the five NVML queries, each with its return code and the value left in
  the output variable.
\<close>

record tick =
  t_wait :: waitpid_result
  q_power :: "nvmlReturn_t \<times> unsigned_int"
  q_core :: "nvmlReturn_t \<times> unsigned_int"
  q_mem :: "nvmlReturn_t \<times> unsigned_int"
  q_util :: "nvmlReturn_t \<times> unsigned_int"
  q_temp :: "nvmlReturn_t \<times> unsigned_int"

text \<open>
  The world of one run. \<open>fork_ret\<close> is what \<^verbatim>\<open>fork()\<close> returns in the process modelled
  (\<open>- 1\<close>: failure; \<open>0\<close>: this is the child). \<open>wait_block\<close> is the answer of the blocking
  \<^verbatim>\<open>waitpid(pid, &status, 0)\<close>, \<open>None\<close> when the child never ends and the call never
  returns. \<open>ticks\<close> is a finite record of the platform's answers, iteration by iteration.
  \<open>elapsed\<close> is \<^verbatim>\<open>dur.count()\<close>, \<open>now_str\<close> the buffer \<^verbatim>\<open>strftime\<close> fills, \<open>files\<close> the file
  system before the run and \<open>open_ok\<close> whether the output file can be opened for writing.
\<close>

record 'd world =
  argv :: "string list"
  fork_ret :: int
  execvp_ok :: bool
  nvml_init :: nvmlReturn_t
  nvml_handle :: nvmlReturn_t
  wait_block :: "waitpid_result option"
  ticks :: "tick list"
  elapsed :: 'd
  open_ok :: bool
  files :: "string \<rightharpoonup> string"
  now_str :: string

subsection \<open>What the program does\<close>

datatype metric = PowerUsage | NVML_CLOCK_GRAPHICS | NVML_CLOCK_MEM | UtilizationRates | NVML_TEMPERATURE_GPU

datatype message =
    Usage
  | Perror_fork
  | Perror_execvp
  | NVML_init_failed nvmlReturn_t
  | NVML_get_device_failed nvmlReturn_t
  | Failed_to_open string

datatype call =
    Fork
  | Execvp "string list"
  | NvmlInit
  | NvmlDeviceGetHandleByIndex nat
  | NvmlShutdown
  | Waitpid_WNOHANG
  | Waitpid_blocking
  | Query metric
  | Sleep_ms int
  | Open_trunc string
  | Close_file
  | Stderr message

text \<open>
  A process ends by returning from \<^verbatim>\<open>main\<close> or calling \<^verbatim>\<open>_exit\<close> (\<open>Exit\<close>), or, in the
  child, by \<^verbatim>\<open>execvp\<close> replacing its image with the command (\<open>Exec\<close>).
\<close>

datatype ending = Exit int | Exec "string list"

record outcome =
  ending :: ending
  files_after :: "string \<rightharpoonup> string"
  trace :: "call list"

subsection \<open>C library: \<^verbatim>\<open>atoi\<close>\<close>

text \<open>
  \<^verbatim>\<open>std::atoi\<close> is the C library's, not the repository's. It is modelled as glibc has it,
  \<^verbatim>\<open>(int) strtol(nptr, NULL, 10)\<close>: white space is skipped, one sign is read, then decimal
  digits up to the first other character; no digit gives 0. \<^verbatim>\<open>strtol\<close> saturates at the
  range of \<^verbatim>\<open>long\<close> and the cast keeps the low 32 bits.
\<close>

definition isspace :: "char \<Rightarrow> bool" where
  "isspace c = (c \<in> set [CHR '' '', CHR 0x09, CHR 0x0A, CHR 0x0B, CHR 0x0C, CHR 0x0D])"

definition isdigit :: "char \<Rightarrow> bool" where
  "isdigit c = (48 \<le> (of_char c :: nat) \<and> (of_char c :: nat) \<le> 57)"

fun digits_value :: "int \<Rightarrow> string \<Rightarrow> int" where
  "digits_value acc [] = acc"
| "digits_value acc (c # cs) =
     (if isdigit c then digits_value (acc * 10 + (of_char c - 48)) cs else acc)"

definition strtol :: "string \<Rightarrow> int" where
  "strtol s =
     (let s1 = dropWhile isspace s;
          neg = (case s1 of [] \<Rightarrow> False | c # cs \<Rightarrow> c = CHR ''-'');
          s2 = (case s1 of [] \<Rightarrow> [] | c # cs \<Rightarrow> if c = CHR ''-'' \<or> c = CHR ''+'' then cs else s1);
          v = digits_value 0 s2;
          sv = (if neg then - v else v)
      in max (- (2 ^ 63)) (min (2 ^ 63 - 1) sv))"

definition atoi :: "string \<Rightarrow> int" where
  "atoi s = sint (word_of_int (strtol s) :: 32 word)"

subsection \<open>Wait status\<close>

text \<open>
  Modelled from the spec: the macros of \<^verbatim>\<open><sys/wait.h>\<close> that \<^verbatim>\<open>main\<close> applies to the wait
  status are not among the repository's sources. The spec's ChildOutcome is a normal exit
  with an exit code or a termination by a signal; the macros below decode it from the
  status word as Linux encodes it: the low seven bits are the terminating signal (0 for a
  normal exit, \<^verbatim>\<open>0x7f\<close> for a stopped child), bit 7 the core-dump flag, and the next eight
  bits the exit code. \<open>W_EXITCODE\<close> is the encoding the kernel applies.
\<close>

definition WTERMSIG :: "int \<Rightarrow> int" where
  "WTERMSIG status = status AND 0x7f"

definition WEXITSTATUS :: "int \<Rightarrow> int" where
  "WEXITSTATUS status = drop_bit 8 (status AND 0xff00)"

definition WIFEXITED :: "int \<Rightarrow> bool" where
  "WIFEXITED status = (WTERMSIG status = 0)"

definition WIFSIGNALED :: "int \<Rightarrow> bool" where
  "WIFSIGNALED status =
     (drop_bit 1 (sint (word_of_int ((status AND 0x7f) + 1) :: 8 word)) > 0)"

definition W_EXITCODE :: "int \<Rightarrow> int \<Rightarrow> int" where
  "W_EXITCODE ret sig = push_bit 8 ret OR sig"

text \<open>Lines 164-167: the monitor's exit code from the wait status.\<close>

definition exit_status :: "int \<Rightarrow> int" where
  "exit_status status =
     (if WIFEXITED status then WEXITSTATUS status
      else if WIFSIGNALED status then 128 + WTERMSIG status
      else 0)"

subsection \<open>The sampling loop (lines 66-111)\<close>

text \<open>The five vectors, the wait status, and the calls made so far.\<close>

record 'd loop_state =
  powers :: "'d list"
  core_clocks :: "unsigned_int list"
  mem_clocks :: "unsigned_int list"
  utils :: "unsigned_int list"
  temps :: "unsigned_int list"
  status :: int
  calls :: "call list"

text \<open>Lines 66-75: the vectors are empty and \<^verbatim>\<open>status\<close> is 0 when the loop starts.\<close>

definition loop_init :: "'d loop_state" where
  "loop_init =
     \<lparr>powers = [], core_clocks = [], mem_clocks = [], utils = [], temps = [],
      status = 0, calls = [Fork, NvmlInit, NvmlDeviceGetHandleByIndex 0]\<rparr>"

text \<open>Lines 82-100: one value per metric, zero where the query did not succeed.\<close>

definition power_w :: "'d fp \<Rightarrow> tick \<Rightarrow> 'd" where
  "power_w fp t =
     (if fst (q_power t) = NVML_SUCCESS
      then d_div fp (d_of_int fp (uint (snd (q_power t)))) (d_of_int fp 1000)
      else d_of_int fp 0)"

definition core_mhz_val :: "tick \<Rightarrow> unsigned_int" where
  "core_mhz_val t = (if fst (q_core t) = NVML_SUCCESS then snd (q_core t) else 0)"

definition mem_mhz_val :: "tick \<Rightarrow> unsigned_int" where
  "mem_mhz_val t = (if fst (q_mem t) = NVML_SUCCESS then snd (q_mem t) else 0)"

definition gpu_util :: "tick \<Rightarrow> unsigned_int" where
  "gpu_util t = (if fst (q_util t) = NVML_SUCCESS then snd (q_util t) else 0)"

definition tval :: "tick \<Rightarrow> unsigned_int" where
  "tval t = (if fst (q_temp t) = NVML_SUCCESS then snd (q_temp t) else 0)"

definition queries :: "call list" where
  "queries = [Query PowerUsage, Query NVML_CLOCK_GRAPHICS, Query NVML_CLOCK_MEM,
              Query UtilizationRates, Query NVML_TEMPERATURE_GPU]"

text \<open>Lines 78-106: the poll, the five queries and the five \<^verbatim>\<open>push_back\<close>s of one iteration.\<close>

definition iteration :: "'d fp \<Rightarrow> tick \<Rightarrow> 'd loop_state \<Rightarrow> 'd loop_state" where
  "iteration fp t st =
     st\<lparr>status := waitpid_status (status st) (t_wait t),
        powers := powers st @ [power_w fp t],
        core_clocks := core_clocks st @ [core_mhz_val t],
        mem_clocks := mem_clocks st @ [mem_mhz_val t],
        utils := utils st @ [gpu_util t],
        temps := temps st @ [tval t],
        calls := calls st @ Waitpid_WNOHANG # queries\<rparr>"

text \<open>
  The \<^verbatim>\<open>while (true)\<close> of lines 76-111. Each iteration consumes one tick; the loop ends at
  the tick whose \<^verbatim>\<open>waitpid\<close> returned \<open>pid\<close>, after that tick's sample is stored. A record of
  ticks that ends before the child is reaped leaves the loop running: \<open>None\<close>.
\<close>

fun sampling_loop ::
  "'d fp \<Rightarrow> int \<Rightarrow> int \<Rightarrow> tick list \<Rightarrow> 'd loop_state \<Rightarrow> 'd loop_state option" where
  "sampling_loop fp pid sample_ms [] st = None"
| "sampling_loop fp pid sample_ms (t # ts) st =
     (let r = waitpid_ret pid (t_wait t);
          child_done = (r = pid);
          st' = iteration fp t st
      in if child_done then Some st'
         else sampling_loop fp pid sample_ms ts (st'\<lparr>calls := calls st' @ [Sleep_ms sample_ms]\<rparr>))"

subsection \<open>Aggregation (lines 117-135)\<close>

record 'd totals =
  sum_p :: 'd
  sum_core :: long
  sum_mem :: long
  sum_util :: long
  sum_temp :: long

text \<open>
  The body of the \<^verbatim>\<open>for\<close> loop: \<^verbatim>\<open>sum_p\<close> is a \<^verbatim>\<open>double\<close>, the four others are \<^verbatim>\<open>long\<close>s
  (64 bits, wrapping) to which an \<^verbatim>\<open>unsigned int\<close> is added.
\<close>

definition add_sample :: "'d fp \<Rightarrow> 'd loop_state \<Rightarrow> nat \<Rightarrow> 'd totals \<Rightarrow> 'd totals" where
  "add_sample fp st i sm =
     sm\<lparr>sum_p := d_add fp (sum_p sm) (powers st ! i),
        sum_core := sum_core sm + ucast (core_clocks st ! i),
        sum_mem := sum_mem sm + ucast (mem_clocks st ! i),
        sum_util := sum_util sm + ucast (utils st ! i),
        sum_temp := sum_temp sm + ucast (temps st ! i)\<rparr>"

function sum_loop :: "'d fp \<Rightarrow> 'd loop_state \<Rightarrow> nat \<Rightarrow> nat \<Rightarrow> 'd totals \<Rightarrow> 'd totals" where
  "sum_loop fp st n i sm =
     (if i < n then sum_loop fp st n (Suc i) (add_sample fp st i sm) else sm)"
  by pat_completeness auto
termination
  by (relation "measure (\<lambda>(fp, st, n, i, sm). n - i)") auto

declare sum_loop.simps [simp del]

record 'd summary =
  avg_p :: 'd
  avg_core :: 'd
  avg_mem :: 'd
  avg_util :: 'd
  avg_temp :: 'd
  n_samples :: nat
  duration_s :: 'd
  energy_j :: 'd

definition aggregate :: "'d fp \<Rightarrow> 'd loop_state \<Rightarrow> 'd \<Rightarrow> 'd summary" where
  "aggregate fp st dur =
     (let n = length (powers st);
          sm = sum_loop fp st n 0
                 \<lparr>sum_p = d_of_int fp 0, sum_core = 0, sum_mem = 0, sum_util = 0, sum_temp = 0\<rparr>;
          p = (if n > 0 then d_div fp (sum_p sm) (d_of_int fp (int n)) else d_of_int fp 0);
          c = (if n > 0 then d_div fp (d_of_int fp (sint (sum_core sm))) (d_of_int fp (int n))
               else d_of_int fp 0);
          m = (if n > 0 then d_div fp (d_of_int fp (sint (sum_mem sm))) (d_of_int fp (int n))
               else d_of_int fp 0);
          u = (if n > 0 then d_div fp (d_of_int fp (sint (sum_util sm))) (d_of_int fp (int n))
               else d_of_int fp 0);
          t = (if n > 0 then d_div fp (d_of_int fp (sint (sum_temp sm))) (d_of_int fp (int n))
               else d_of_int fp 0)
      in \<lparr>avg_p = p, avg_core = c, avg_mem = m, avg_util = u, avg_temp = t,
          n_samples = n, duration_s = dur, energy_j = d_mul fp p dur\<rparr>)"

subsection \<open>The report (lines 137-160)\<close>

text \<open>What \<^verbatim>\<open>ofs << n\<close> prints for a \<^verbatim>\<open>size_t\<close>: the decimal digits.\<close>

definition digit_char :: "nat \<Rightarrow> char" where
  "digit_char d = ''0123456789'' ! d"

fun show_nat :: "nat \<Rightarrow> string" where
  "show_nat n =
     (if n < 10 then [digit_char n]
      else show_nat (n div 10) @ [digit_char (n mod 10)])"

declare show_nat.simps [simp del]

definition newline :: string where
  "newline = [CHR 0x0A]"

text \<open>The stream after the nine insertions of lines 150-159, starting from an empty file.\<close>

definition report_text :: "'d fp \<Rightarrow> string \<Rightarrow> 'd summary \<Rightarrow> string" where
  "report_text fp buf sm =
     (let ofs = [];
          ofs = ofs @ ''timestamp='' @ buf @ newline;
          ofs = ofs @ ''power_avg_w='' @ d_fixed3 fp (avg_p sm) @ newline;
          ofs = ofs @ ''gpu_core_clock_MHz='' @ d_fixed3 fp (avg_core sm) @ newline;
          ofs = ofs @ ''gpu_mem_clock_MHz='' @ d_fixed3 fp (avg_mem sm) @ newline;
          ofs = ofs @ ''gpu_utilization_pct='' @ d_fixed3 fp (avg_util sm) @ newline;
          ofs = ofs @ ''gpu_temp_c='' @ d_fixed3 fp (avg_temp sm) @ newline;
          ofs = ofs @ ''samples='' @ show_nat (n_samples sm) @ newline;
          ofs = ofs @ ''duration_s='' @ d_fixed3 fp (duration_s sm) @ newline;
          ofs = ofs @ ''energy_j='' @ d_fixed3 fp (energy_j sm) @ newline
      in ofs)"

subsection \<open>\<^verbatim>\<open>main\<close>\<close>

text \<open>Lines 38-44, in the child: \<^verbatim>\<open>execvp\<close>, and \<^verbatim>\<open>_exit(127)\<close> when it returns.\<close>

definition child_pathway :: "'d world \<Rightarrow> string list \<Rightarrow> outcome" where
  "child_pathway w cmd =
     (if execvp_ok w
      then \<lparr>ending = Exec cmd, files_after = files w, trace = [Fork, Execvp cmd]\<rparr>
      else \<lparr>ending = Exit 127, files_after = files w,
            trace = [Fork, Execvp cmd, Stderr Perror_execvp]\<rparr>)"

text \<open>
  Lines 113-167, after the loop: the averages, the output file opened with
  \<^verbatim>\<open>std::ios::trunc\<close>, the nine lines, and the exit code from the wait status.
\<close>

definition finish :: "'d fp \<Rightarrow> 'd world \<Rightarrow> string \<Rightarrow> 'd loop_state \<Rightarrow> outcome" where
  "finish fp w out_file st =
     (let sm = aggregate fp st (elapsed w) in
      if \<not> open_ok w
      then \<lparr>ending = Exit 6, files_after = files w,
            trace = calls st @ [Open_trunc out_file, Stderr (Failed_to_open out_file), NvmlShutdown]\<rparr>
      else \<lparr>ending = Exit (exit_status (status st)),
            files_after = (files w)(out_file \<mapsto> report_text fp (now_str w) sm),
            trace = calls st @ [Open_trunc out_file, Close_file, NvmlShutdown]\<rparr>)"

text \<open>
  Lines 46-167, in the parent. The blocking \<^verbatim>\<open>waitpid\<close> of the two early returns stores
  into a local \<^verbatim>\<open>status\<close> that is not read again.
\<close>

definition monitor :: "'d fp \<Rightarrow> 'd world \<Rightarrow> int \<Rightarrow> int \<Rightarrow> string \<Rightarrow> outcome option" where
  "monitor fp w pid sample_ms out_file =
     (if nvml_init w \<noteq> NVML_SUCCESS
      then (case wait_block w of
              None \<Rightarrow> None
            | Some r \<Rightarrow>
                Some \<lparr>ending = Exit 4, files_after = files w,
                      trace = [Fork, NvmlInit, Stderr (NVML_init_failed (nvml_init w)),
                               Waitpid_blocking]\<rparr>)
      else if nvml_handle w \<noteq> NVML_SUCCESS
      then (case wait_block w of
              None \<Rightarrow> None
            | Some r \<Rightarrow>
                Some \<lparr>ending = Exit 5, files_after = files w,
                      trace = [Fork, NvmlInit, NvmlDeviceGetHandleByIndex 0,
                               Stderr (NVML_get_device_failed (nvml_handle w)),
                               NvmlShutdown, Waitpid_blocking]\<rparr>)
      else
        (case sampling_loop fp pid sample_ms (ticks w) loop_init of
           None \<Rightarrow> None
         | Some st \<Rightarrow> Some (finish fp w out_file st)))"

definition main :: "'d fp \<Rightarrow> 'd world \<Rightarrow> outcome option" where
  "main fp w =
     (let argc = length (argv w) in
      if argc < 4
      then Some \<lparr>ending = Exit 2, files_after = files w, trace = [Stderr Usage]\<rparr>
      else
        let sample_ms = atoi (argv w ! 1);
            out_file = argv w ! 2;
            cmd = drop 3 (argv w);
            pid = fork_ret w
        in if pid = - 1
           then Some \<lparr>ending = Exit 3, files_after = files w,
                      trace = [Fork, Stderr Perror_fork]\<rparr>
           else if pid = 0 then Some (child_pathway w cmd)
           else monitor fp w pid sample_ms out_file)"

subsection \<open>Exact arithmetic and a sample run\<close>

text \<open>
  One carrier to evaluate runs on: the reals, with no rounding. \<open>fixed3_real\<close> prints the
  exact value rounded to three decimals, a tie going to the even neighbour.
\<close>

definition pad3 :: "nat \<Rightarrow> string" where
  "pad3 n = [digit_char (n div 100), digit_char (n div 10 mod 10), digit_char (n mod 10)]"

definition fixed3_real :: "real \<Rightarrow> string" where
  "fixed3_real x =
     (let y = \<bar>x\<bar> * 1000;
          m0 = nat \<lfloor>y\<rfloor>;
          m = (if y - real m0 > 1 / 2 \<or> (y - real m0 = 1 / 2 \<and> odd m0) then Suc m0 else m0)
      in (if x < 0 then ''-'' else []) @ show_nat (m div 1000) @ ''.'' @ pad3 (m mod 1000))"

definition exact_fp :: "real fp" where
  "exact_fp =
     \<lparr>d_of_int = real_of_int, d_add = (+), d_mul = (*), d_div = (/), d_fixed3 = fixed3_real\<rparr>"

text \<open>
  A tick on which the utilization query fails, and a run of two iterations: the child is
  still running at the first poll and is reaped at the second.
\<close>

definition demo_tick :: "waitpid_result \<Rightarrow> unsigned_int \<Rightarrow> tick" where
  "demo_tick r mw =
     \<lparr>t_wait = r, q_power = (NVML_SUCCESS, mw), q_core = (NVML_SUCCESS, 1500),
      q_mem = (NVML_SUCCESS, 5001), q_util = (NVML_ERROR 3, 77), q_temp = (NVML_SUCCESS, 60)\<rparr>"

definition demo_world :: "int \<Rightarrow> real world" where
  "demo_world st =
     \<lparr>argv = [''gpu_monitor'', ''100'', ''out.txt'', ''./dot''],
      fork_ret = 4242, execvp_ok = True,
      nvml_init = NVML_SUCCESS, nvml_handle = NVML_SUCCESS,
      wait_block = Some (Reaped st),
      ticks = [demo_tick StillRunning 120000, demo_tick (Reaped st) 130500],
      elapsed = 1 / 4, open_ok = True,
      files = [''out.txt'' \<mapsto> ''stale''],
      now_str = ''2025-01-01T00:00:00+0000''\<rparr>"

text \<open>A tick on which all five queries fail, each leaving some value behind.\<close>

definition failing_tick :: "waitpid_result \<Rightarrow> tick" where
  "failing_tick r =
     \<lparr>t_wait = r, q_power = (NVML_ERROR 999, 4711), q_core = (NVML_ERROR 3, 1),
      q_mem = (NVML_ERROR 3, 2), q_util = (NVML_ERROR 15, 3), q_temp = (NVML_ERROR 15, 4)\<rparr>"

text \<open>
  The vectors and the status when the loop of \<open>demo_world 1792\<close> ends, with the list of
  calls left empty.
\<close>

definition demo_state :: "real loop_state" where
  "demo_state =
     \<lparr>powers = [120, 261 / 2], core_clocks = [1500, 1500], mem_clocks = [5001, 5001],
      utils = [0, 0], temps = [60, 60], status = 1792, calls = []\<rparr>"

text \<open>The report that the run of \<open>demo_world\<close> writes.\<close>

definition demo_report :: string where
  "demo_report =
     ''timestamp=2025-01-01T00:00:00+0000'' @ newline
     @ ''power_avg_w=125.250'' @ newline
     @ ''gpu_core_clock_MHz=1500.000'' @ newline
     @ ''gpu_mem_clock_MHz=5001.000'' @ newline
     @ ''gpu_utilization_pct=0.000'' @ newline
     @ ''gpu_temp_c=60.000'' @ newline
     @ ''samples=2'' @ newline
     @ ''duration_s=0.250'' @ newline
     @ ''energy_j=31.312'' @ newline"

subsection \<open>Vocabulary of the properties\<close>

text \<open>The five vectors have one length.\<close>

definition aligned :: "'d loop_state \<Rightarrow> bool" where
  "aligned st =
     (length (core_clocks st) = length (powers st) \<and> length (mem_clocks st) = length (powers st)
      \<and> length (utils st) = length (powers st) \<and> length (temps st) = length (powers st))"

text \<open>The sum of a vector of \<^verbatim>\<open>unsigned int\<close>s, as a number.\<close>

definition total :: "unsigned_int list \<Rightarrow> nat" where
  "total xs = sum_list (map unat xs)"

text \<open>The content of one file after the run.\<close>

definition file_at :: "string \<Rightarrow> outcome \<Rightarrow> string option" where
  "file_at path r = files_after r path"

text \<open>One line of the report.\<close>

fun kv_line :: "string \<times> string \<Rightarrow> string" where
  "kv_line (k, v) = k @ ''='' @ v @ newline"

text \<open>A run seen with every sleep lasting \<open>ms\<close> milliseconds.\<close>

fun set_sleep :: "int \<Rightarrow> call \<Rightarrow> call" where
  "set_sleep ms (Sleep_ms d) = Sleep_ms ms"
| "set_sleep ms c = c"

definition retime :: "int \<Rightarrow> outcome \<Rightarrow> outcome" where
  "retime ms r = r\<lparr>trace := map (set_sleep ms) (trace r)\<rparr>"

section \<open>Properties\<close>

subsection \<open>The sampling loop\<close>

lemma waitpid_ret_pid:
  "pid \<noteq> 0 \<Longrightarrow> pid \<noteq> - 1 \<Longrightarrow> (waitpid_ret pid r = pid) = is_reaped r"
  by (cases r) auto

text \<open>
  The run of the loop over ticks of which the first to reap the child is \<open>t\<close>: every tick
  up to and including \<open>t\<close> contributes one value to each vector, and every tick before \<open>t\<close>
  is followed by one sleep.
\<close>

lemma sampling_loop_run:
  assumes "pid \<noteq> 0" "pid \<noteq> - 1"
      and "\<forall>x\<in>set pre. \<not> is_reaped (t_wait x)"
      and "t_wait t = Reaped s"
  shows "sampling_loop fp pid ms (pre @ t # post) st =
         Some (st\<lparr>status := s,
                  powers := powers st @ map (power_w fp) (pre @ [t]),
                  core_clocks := core_clocks st @ map core_mhz_val (pre @ [t]),
                  mem_clocks := mem_clocks st @ map mem_mhz_val (pre @ [t]),
                  utils := utils st @ map gpu_util (pre @ [t]),
                  temps := temps st @ map tval (pre @ [t]),
                  calls := calls st
                    @ concat (map (\<lambda>x. Waitpid_WNOHANG # queries @ [Sleep_ms ms]) pre)
                    @ Waitpid_WNOHANG # queries\<rparr>)"
  using assms(3)
proof (induction pre arbitrary: st)
  case Nil
  show ?case using assms(1,2,4) by (simp add: iteration_def)
next
  case (Cons x pre)
  have nr: "\<not> is_reaped (t_wait x)" using Cons.prems by simp
  then have st: "waitpid_status (status st) (t_wait x) = status st"
    by (cases "t_wait x") auto
  have nd: "waitpid_ret pid (t_wait x) \<noteq> pid"
    using nr waitpid_ret_pid [OF assms(1,2)] by simp
  have rest: "\<forall>x\<in>set pre. \<not> is_reaped (t_wait x)" using Cons.prems by simp
  show ?case
    using nd st by (simp add: Cons.IH [OF rest] iteration_def)
qed

text \<open>
  C1. Sample-then-check: with \<open>t\<close> the first tick whose poll reaps the child, the loop
  returns, and it has then made, for every earlier tick, the poll, the five queries and
  one sleep, in this order, and for \<open>t\<close> the poll and the five queries; each vector holds
  one value for every tick up to and including \<open>t\<close>. So the series has one element more
  than there were polls that found the child running: at least one, and exactly one when
  the child had exited before the first poll.
\<close>

theorem sample_then_check:
  assumes "pid \<noteq> 0" "pid \<noteq> - 1"
      and "\<forall>x\<in>set pre. \<not> is_reaped (t_wait x)"
      and "is_reaped (t_wait t)"
  shows "\<exists>st'. sampling_loop fp pid ms (pre @ t # post) loop_init = Some st'
           \<and> powers st' = map (power_w fp) pre @ [power_w fp t]
           \<and> core_clocks st' = map core_mhz_val pre @ [core_mhz_val t]
           \<and> mem_clocks st' = map mem_mhz_val pre @ [mem_mhz_val t]
           \<and> utils st' = map gpu_util pre @ [gpu_util t]
           \<and> temps st' = map tval pre @ [tval t]
           \<and> calls st' = calls loop_init
                @ concat (map (\<lambda>x. Waitpid_WNOHANG # queries @ [Sleep_ms ms]) pre)
                @ Waitpid_WNOHANG # queries
           \<and> length (powers st') = length pre + 1
           \<and> 1 \<le> length (powers st')"
proof -
  obtain s where s: "t_wait t = Reaped s"
    using assms(4) by (cases "t_wait t") auto
  show ?thesis
    by (simp add: sampling_loop_run [OF assms(1,2,3) s] loop_init_def)
qed

theorem sample_then_check_witness:
  "is_reaped (t_wait (demo_tick (Reaped 1792) 130500))
   \<and> (\<exists>st'. sampling_loop exact_fp 4242 100
              ([demo_tick StillRunning 120000] @ demo_tick (Reaped 1792) 130500 # []) loop_init
            = Some st'
          \<and> powers st' = [120, 261 / 2] \<and> utils st' = [0, 0] \<and> temps st' = [60, 60])
   \<and> (\<exists>st'. sampling_loop exact_fp 4242 100 ([] @ demo_tick (Reaped 1792) 130500 # []) loop_init
            = Some st'
          \<and> length (powers st') = 1)"
proof -
  have h1: "(4242 :: int) \<noteq> 0" and h2: "(4242 :: int) \<noteq> - 1" by simp_all
  have h3: "\<forall>x\<in>set [demo_tick StillRunning 120000]. \<not> is_reaped (t_wait x)"
    by (simp add: demo_tick_def)
  have h3': "\<forall>x\<in>set ([] :: tick list). \<not> is_reaped (t_wait x)" by simp
  have h4: "is_reaped (t_wait (demo_tick (Reaped 1792) 130500))"
    by (simp add: demo_tick_def)
  show ?thesis
    using sample_then_check [OF h1 h2 h3 h4, of exact_fp 100 "[]"]
          sample_then_check [OF h1 h2 h3' h4, of exact_fp 100 "[]"] h4
    by (auto simp: demo_tick_def power_w_def gpu_util_def tval_def exact_fp_def)
qed

subsection \<open>The wait status\<close>

lemma and_7f: "(x :: int) AND 0x7f = x mod 128"
proof -
  have "(0x7f :: int) = mask 7" by (simp add: mask_eq_exp_minus_1)
  then have "x AND 0x7f = take_bit 7 x" by (simp only: take_bit_eq_mask)
  then show ?thesis by (simp add: take_bit_eq_mod)
qed

lemma ff00: "(0xff00 :: int) = push_bit 8 (mask 8)"
  by (simp add: mask_eq_exp_minus_1 push_bit_eq_mult)

lemma WTERMSIG_mod: "WTERMSIG s = s mod 128"
  by (simp add: WTERMSIG_def and_7f)

lemma WEXITSTATUS_exited:
  assumes "0 \<le> c" "c < 256"
  shows "WEXITSTATUS (W_EXITCODE c 0) = c"
proof -
  have "push_bit 8 c AND push_bit 8 (mask 8) = push_bit 8 (take_bit 8 c)"
    by (simp add: take_bit_eq_mask flip: push_bit_and)
  moreover have "take_bit 8 c = c"
    using assms by (simp add: take_bit_int_eq_self)
  ultimately show ?thesis
    by (simp add: WEXITSTATUS_def W_EXITCODE_def ff00 drop_bit_push_bit del: push_bit_and)
qed

lemma WIFEXITED_exited: "WIFEXITED (W_EXITCODE c 0)"
  by (simp add: WIFEXITED_def WTERMSIG_mod W_EXITCODE_def push_bit_eq_mult)

lemma exit_status_exited:
  "0 \<le> c \<Longrightarrow> c < 256 \<Longrightarrow> exit_status (W_EXITCODE c 0) = c"
  by (simp add: exit_status_def WIFEXITED_exited WEXITSTATUS_exited)

lemma WIFSIGNALED_iff: "WIFSIGNALED s = (0 < s mod 128 \<and> s mod 128 < 127)"
proof -
  let ?k = "s mod 128"
  have r: "0 \<le> ?k" "?k < 128" by simp_all
  have w: "sint (word_of_int (?k + 1) :: 8 word) = (?k + 1 + 128) mod 256 - 128"
    using sint_sbintrunc' [where 'a = 8, of "?k + 1"] by (simp add: signed_take_bit_eq_take_bit_shift take_bit_eq_mod)
  have "sint (word_of_int (?k + 1) :: 8 word) = (if ?k = 127 then - 128 else ?k + 1)"
  proof (cases "?k = 127")
    case True
    then show ?thesis unfolding w by simp
  next
    case False
    then have "?k + 1 < 128" using r by linarith
    then show ?thesis unfolding w using r False by simp
  qed
  then show ?thesis
    using r by (auto simp: WIFSIGNALED_def and_7f drop_bit_eq_div)
qed

lemma signaled_mod:
  assumes "0 < g" "g < 127"
  shows "(W_EXITCODE 0 g + (if core then 128 else 0)) mod 128 = g"
  using assms by (simp add: W_EXITCODE_def)

lemma exit_status_signaled:
  assumes "0 < g" "g < 127"
  shows "exit_status (W_EXITCODE 0 g + (if core then 128 else 0)) = 128 + g"
proof -
  let ?s = "W_EXITCODE 0 g + (if core then 128 else 0)"
  have m: "?s mod 128 = g" using assms by (rule signaled_mod)
  show ?thesis
    unfolding exit_status_def WIFEXITED_def WTERMSIG_mod WIFSIGNALED_iff m
    using assms by simp
qed

lemma exit_status_neither:
  "\<not> WIFEXITED s \<Longrightarrow> \<not> WIFSIGNALED s \<Longrightarrow> exit_status s = 0"
  by (simp add: exit_status_def)

subsection \<open>The totals and the averages\<close>

lemma sint_long: "S < 2 ^ 63 \<Longrightarrow> sint (word_of_nat S :: 64 word) = int S"
proof -
  assume "S < 2 ^ 63"
  then have "int S < 2 ^ 63" by (metis of_nat_less_numeral_power_cancel_iff)
  then show ?thesis
    by (simp add: signed_of_nat signed_take_bit_int_eq_self)
qed

lemma drop_take_step:
  "i < n \<Longrightarrow> n \<le> length xs \<Longrightarrow> drop i (take n xs) = xs ! i # drop (Suc i) (take n xs)"
  by (simp add: Cons_nth_drop_Suc [symmetric])

lemma sum_loop_eq:
  assumes "n \<le> length (powers st)" "n \<le> length (core_clocks st)" "n \<le> length (mem_clocks st)"
          "n \<le> length (utils st)" "n \<le> length (temps st)"
  shows "sum_loop fp st n i sm =
         \<lparr>sum_p = foldl (d_add fp) (sum_p sm) (drop i (take n (powers st))),
          sum_core = sum_core sm + word_of_nat (total (drop i (take n (core_clocks st)))),
          sum_mem = sum_mem sm + word_of_nat (total (drop i (take n (mem_clocks st)))),
          sum_util = sum_util sm + word_of_nat (total (drop i (take n (utils st)))),
          sum_temp = sum_temp sm + word_of_nat (total (drop i (take n (temps st))))\<rparr>"
  using assms
proof (induction fp st n i sm rule: sum_loop.induct)
  case (1 fp st n i sm)
  show ?case
  proof (cases "i < n")
    case True
    have step: "sum_loop fp st n i sm = sum_loop fp st n (Suc i) (add_sample fp st i sm)"
      using True by (simp add: sum_loop.simps [of fp st n i sm])
    show ?thesis
      unfolding step "1.IH" [OF True "1.prems"]
      using True "1.prems"
      by (simp add: add_sample_def drop_take_step total_def)
  next
    case False
    then show ?thesis
      by (simp add: sum_loop.simps [of fp st n i sm] total_def)
  qed
qed

lemma aggregate_eq:
  assumes "aligned st"
  shows "aggregate fp st dur =
     (let n = length (powers st);
          mean = (\<lambda>x. if n > 0 then d_div fp x (d_of_int fp (int n)) else d_of_int fp 0);
          p = mean (foldl (d_add fp) (d_of_int fp 0) (powers st))
      in \<lparr>avg_p = p,
         avg_core = mean (d_of_int fp (sint (word_of_nat (total (core_clocks st)) :: long))),
         avg_mem = mean (d_of_int fp (sint (word_of_nat (total (mem_clocks st)) :: long))),
         avg_util = mean (d_of_int fp (sint (word_of_nat (total (utils st)) :: long))),
         avg_temp = mean (d_of_int fp (sint (word_of_nat (total (temps st)) :: long))),
         n_samples = n, duration_s = dur, energy_j = d_mul fp p dur\<rparr>)"
proof -
  have le: "length (powers st) \<le> length (powers st)" "length (powers st) \<le> length (core_clocks st)"
    "length (powers st) \<le> length (mem_clocks st)" "length (powers st) \<le> length (utils st)"
    "length (powers st) \<le> length (temps st)"
    using assms by (simp_all add: aligned_def)
  have tk: "take (length (powers st)) (core_clocks st) = core_clocks st"
       "take (length (powers st)) (mem_clocks st) = mem_clocks st"
       "take (length (powers st)) (utils st) = utils st"
       "take (length (powers st)) (temps st) = temps st"
    using assms by (simp_all add: aligned_def)
  show ?thesis
    by (simp add: aggregate_def Let_def sum_loop_eq [OF le] tk)
qed

subsection \<open>The parent's run\<close>

lemma main_parent:
  assumes "4 \<le> length (argv w)" "fork_ret w \<noteq> 0" "fork_ret w \<noteq> - 1"
      and "nvml_init w = NVML_SUCCESS" "nvml_handle w = NVML_SUCCESS"
  shows "main fp w =
         map_option (finish fp w (argv w ! 2))
           (sampling_loop fp (fork_ret w) (atoi (argv w ! 1)) (ticks w) loop_init)"
  using assms by (simp add: main_def monitor_def Let_def split: option.split)

lemma demo_world_facts:
  "4 \<le> length (argv (demo_world s))" "fork_ret (demo_world s) \<noteq> 0"
  "fork_ret (demo_world s) \<noteq> - 1" "nvml_init (demo_world s) = NVML_SUCCESS"
  "nvml_handle (demo_world s) = NVML_SUCCESS" "open_ok (demo_world s)"
  "ticks (demo_world s) = [demo_tick StillRunning 120000] @ demo_tick (Reaped s) 130500 # []"
  "\<forall>x\<in>set [demo_tick StillRunning 120000]. \<not> is_reaped (t_wait x)"
  "t_wait (demo_tick (Reaped s) 130500) = Reaped s"
  by (simp_all add: demo_world_def demo_tick_def)

subsection \<open>The sample run\<close>

lemmas run_defs = main_def monitor_def finish_def child_pathway_def loop_init_def iteration_def
  queries_def demo_world_def demo_tick_def Let_def

lemma atoi_100: "atoi ''100'' = 100"
  by (simp add: atoi_def strtol_def isspace_def isdigit_def)

lemma demo_summary:
  "aggregate exact_fp
     \<lparr>powers = [120, 261 / 2], core_clocks = [1500, 1500], mem_clocks = [5001, 5001],
      utils = [0, 0], temps = [60, 60], status = s, calls = cs\<rparr> (1 / 4)
   = \<lparr>avg_p = 501 / 4, avg_core = 1500, avg_mem = 5001, avg_util = 0, avg_temp = 60,
      n_samples = 2, duration_s = 1 / 4, energy_j = 501 / 16\<rparr>"
  by (simp add: aggregate_def sum_loop.simps add_sample_def Let_def exact_fp_def)

lemma demo_text:
  "report_text exact_fp ''2025-01-01T00:00:00+0000''
     \<lparr>avg_p = 501 / 4, avg_core = 1500, avg_mem = 5001, avg_util = 0, avg_temp = 60,
      n_samples = 2, duration_s = 1 / 4, energy_j = 501 / 16\<rparr> = demo_report"
  by (simp add: report_text_def demo_report_def exact_fp_def fixed3_real_def pad3_def
      show_nat.simps digit_char_def newline_def Let_def)

lemma demo_run:
  "main exact_fp (demo_world s) =
   Some \<lparr>ending = Exit (exit_status s),
         files_after = (files (demo_world s))(''out.txt'' \<mapsto> demo_report),
         trace = [Fork, NvmlInit, NvmlDeviceGetHandleByIndex 0]
           @ Waitpid_WNOHANG # queries @ [Sleep_ms 100]
           @ Waitpid_WNOHANG # queries @ [Open_trunc ''out.txt'', Close_file, NvmlShutdown]\<rparr>"
proof -
  have "main exact_fp (demo_world s) = Some (finish exact_fp (demo_world s) ''out.txt''
     \<lparr>powers = [120, 261 / 2], core_clocks = [1500, 1500], mem_clocks = [5001, 5001],
      utils = [0, 0], temps = [60, 60], status = s,
      calls = [Fork, NvmlInit, NvmlDeviceGetHandleByIndex 0]
           @ Waitpid_WNOHANG # queries @ [Sleep_ms 100] @ Waitpid_WNOHANG # queries\<rparr>)"
    by (simp add: main_def monitor_def loop_init_def iteration_def demo_world_def demo_tick_def
        atoi_100 power_w_def core_mhz_val_def mem_mhz_val_def gpu_util_def tval_def exact_fp_def)
  moreover have "elapsed (demo_world s) = 1 / 4" "open_ok (demo_world s)"
    "now_str (demo_world s) = ''2025-01-01T00:00:00+0000''"
    by (simp_all add: demo_world_def)
  ultimately show ?thesis
    by (simp add: finish_def demo_summary demo_text)
qed

subsection \<open>Exit propagation\<close>

text \<open>
  C2. When the loop has reaped the child with wait status \<open>s\<close> and the report is written,
  the monitor's exit code is the child's exit code when \<open>s\<close> is the status of a normal
  exit, 128 plus the signal number when \<open>s\<close> is the status of a death by signal (with or
  without a core dump), and 0 when \<open>s\<close> is neither.
\<close>

theorem exit_propagation:
  assumes "4 \<le> length (argv w)" "fork_ret w \<noteq> 0" "fork_ret w \<noteq> - 1"
      and "nvml_init w = NVML_SUCCESS" "nvml_handle w = NVML_SUCCESS" "open_ok w"
      and "ticks w = pre @ t # post" "\<forall>x\<in>set pre. \<not> is_reaped (t_wait x)"
      and "t_wait t = Reaped s"
  shows "\<exists>r. main fp w = Some r
           \<and> (\<forall>c. 0 \<le> c \<and> c < 256 \<and> s = W_EXITCODE c 0 \<longrightarrow> ending r = Exit c)
           \<and> (\<forall>g core. 0 < g \<and> g < 127 \<and> s = W_EXITCODE 0 g + (if core then 128 else 0)
                  \<longrightarrow> ending r = Exit (128 + g))
           \<and> (\<not> WIFEXITED s \<and> \<not> WIFSIGNALED s \<longrightarrow> ending r = Exit 0)"
proof -
  let ?st = "sampling_loop fp (fork_ret w) (atoi (argv w ! 1)) (ticks w) loop_init"
  obtain st where run: "?st = Some st" and st: "status st = s"
    unfolding assms(7) sampling_loop_run [OF assms(2,3,8,9)] by simp
  have m: "main fp w = Some (finish fp w (argv w ! 2) st)"
    unfolding main_parent [OF assms(1-5)] run by simp
  have e: "ending (finish fp w (argv w ! 2) st) = Exit (exit_status s)"
    using assms(6) st by (simp add: finish_def Let_def)
  have c1: "\<forall>c. 0 \<le> c \<and> c < 256 \<and> s = W_EXITCODE c 0 \<longrightarrow> exit_status s = c"
    by (simp add: exit_status_exited)
  have c2: "\<forall>g core. 0 < g \<and> g < 127 \<and> s = W_EXITCODE 0 g + (if core then 128 else 0)
              \<longrightarrow> exit_status s = 128 + g"
    using exit_status_signaled by blast
  have c3: "\<not> WIFEXITED s \<and> \<not> WIFSIGNALED s \<longrightarrow> exit_status s = 0"
    by (simp add: exit_status_neither)
  show ?thesis
  proof (intro exI [of _ "finish fp w (argv w ! 2) st"] conjI)
    show "main fp w = Some (finish fp w (argv w ! 2) st)" by (rule m)
    show "\<forall>c. 0 \<le> c \<and> c < 256 \<and> s = W_EXITCODE c 0
            \<longrightarrow> ending (finish fp w (argv w ! 2) st) = Exit c"
      unfolding e using c1 by blast
    show "\<forall>g core. 0 < g \<and> g < 127 \<and> s = W_EXITCODE 0 g + (if core then 128 else 0)
            \<longrightarrow> ending (finish fp w (argv w ! 2) st) = Exit (128 + g)"
      unfolding e using c2 by blast
    show "\<not> WIFEXITED s \<and> \<not> WIFSIGNALED s
            \<longrightarrow> ending (finish fp w (argv w ! 2) st) = Exit 0"
      unfolding e using c3 by blast
  qed
qed

theorem exit_propagation_witness:
  "map_option ending (main exact_fp (demo_world (W_EXITCODE 7 0))) = Some (Exit 7)
   \<and> map_option ending (main exact_fp (demo_world (W_EXITCODE 0 9))) = Some (Exit 137)
   \<and> map_option ending (main exact_fp (demo_world 0x137f)) = Some (Exit 0)"
proof -
  obtain r1 where r1: "main exact_fp (demo_world (W_EXITCODE 7 0)) = Some r1"
    and i1: "\<forall>c. 0 \<le> c \<and> c < 256 \<and> W_EXITCODE 7 0 = W_EXITCODE c 0 \<longrightarrow> ending r1 = Exit c"
    using exit_propagation [OF demo_world_facts, where s = "W_EXITCODE 7 0" and fp = exact_fp]
    by blast
  have a: "ending r1 = Exit 7" using i1 [rule_format, of 7] by simp
  obtain r2 where r2: "main exact_fp (demo_world (W_EXITCODE 0 9)) = Some r2"
    and i2: "\<forall>g core. 0 < g \<and> g < 127
               \<and> W_EXITCODE 0 9 = W_EXITCODE 0 g + (if core then 128 else 0)
               \<longrightarrow> ending r2 = Exit (128 + g)"
    using exit_propagation [OF demo_world_facts, where s = "W_EXITCODE 0 9" and fp = exact_fp]
    by blast
  have b: "ending r2 = Exit 137" using i2 [rule_format, of 9 False] by simp
  have n: "\<not> WIFEXITED 0x137f \<and> \<not> WIFSIGNALED 0x137f"
    by (simp add: WIFEXITED_def WTERMSIG_mod WIFSIGNALED_iff)
  obtain r3 where r3: "main exact_fp (demo_world 0x137f) = Some r3"
    and i3: "\<not> WIFEXITED 0x137f \<and> \<not> WIFSIGNALED 0x137f \<longrightarrow> ending r3 = Exit 0"
    using exit_propagation [OF demo_world_facts, where s = "0x137f" and fp = exact_fp]
    by blast
  have c: "ending r3 = Exit 0" using i3 n by blast
  show ?thesis by (simp add: r1 r2 r3 a b c)
qed

subsection \<open>The report\<close>

lemma n_samples_aggregate: "n_samples (aggregate fp st dur) = length (powers st)"
  by (simp add: aggregate_def Let_def)

lemma report_text_lines:
  "report_text fp buf sm =
     concat (map kv_line
       [(''timestamp'', buf),
        (''power_avg_w'', d_fixed3 fp (avg_p sm)),
        (''gpu_core_clock_MHz'', d_fixed3 fp (avg_core sm)),
        (''gpu_mem_clock_MHz'', d_fixed3 fp (avg_mem sm)),
        (''gpu_utilization_pct'', d_fixed3 fp (avg_util sm)),
        (''gpu_temp_c'', d_fixed3 fp (avg_temp sm)),
        (''samples'', show_nat (n_samples sm)),
        (''duration_s'', d_fixed3 fp (duration_s sm)),
        (''energy_j'', d_fixed3 fp (energy_j sm))])"
  by (simp add: report_text_def)

subsection \<open>Failures before the loop\<close>

text \<open>
  C3, as the claim states it, fails: with NVML initialization failing and a child that
  exits with code 7, the monitor waits for the child and returns 4, not 7.
\<close>

theorem degraded_exit_counterexample:
  "map_option ending (main exact_fp ((demo_world (W_EXITCODE 7 0))\<lparr>nvml_init := NVML_ERROR 9\<rparr>))
     = Some (Exit 4)
   \<and> wait_block ((demo_world (W_EXITCODE 7 0))\<lparr>nvml_init := NVML_ERROR 9\<rparr>)
     = Some (Reaped (W_EXITCODE 7 0))
   \<and> exit_status (W_EXITCODE 7 0) = 7"
  by (simp add: run_defs exit_status_exited)

text \<open>
  C3, amended. When NVML initialization fails or the device handle cannot be obtained, the
  monitor makes the blocking \<^verbatim>\<open>waitpid\<close> as its last call and returns only when that call
  returns: it never returns if the child never ends. It then exits with its own code, 4
  for the initialization and 5 for the device, whatever the child's status; it polls
  nothing, queries no metric, opens no file and leaves the files as they were.
\<close>

theorem degraded_path:
  assumes "4 \<le> length (argv w)" "fork_ret w \<noteq> 0" "fork_ret w \<noteq> - 1"
      and "nvml_init w \<noteq> NVML_SUCCESS \<or> nvml_handle w \<noteq> NVML_SUCCESS"
  shows "(wait_block w = None \<longrightarrow> main fp w = None)
       \<and> (\<forall>b. wait_block w = Some b \<longrightarrow>
            (\<exists>r. main fp w = Some r
               \<and> ending r = Exit (if nvml_init w \<noteq> NVML_SUCCESS then 4 else 5)
               \<and> files_after r = files w
               \<and> last (trace r) = Waitpid_blocking
               \<and> Waitpid_WNOHANG \<notin> set (trace r)
               \<and> (\<forall>m. Query m \<notin> set (trace r))
               \<and> (\<forall>f. Open_trunc f \<notin> set (trace r))))"
proof (cases "nvml_init w = NVML_SUCCESS")
  case True
  then have h: "nvml_handle w \<noteq> NVML_SUCCESS" using assms(4) by simp
  show ?thesis
    using assms(1-3) True h by (auto simp: main_def monitor_def Let_def)
next
  case False
  show ?thesis
    using assms(1-3) False by (auto simp: main_def monitor_def Let_def)
qed

theorem degraded_path_witness:
  "map_option ending (main exact_fp ((demo_world 1792)\<lparr>nvml_init := NVML_ERROR 9\<rparr>)) = Some (Exit 4)
   \<and> map_option files_after (main exact_fp ((demo_world 1792)\<lparr>nvml_init := NVML_ERROR 9\<rparr>))
       = Some (files (demo_world 1792))
   \<and> map_option ending (main exact_fp ((demo_world 1792)\<lparr>nvml_handle := NVML_ERROR 2\<rparr>)) = Some (Exit 5)
   \<and> main exact_fp ((demo_world 1792)\<lparr>nvml_init := NVML_ERROR 9, wait_block := None\<rparr>) = None"
proof -
  let ?a = "(demo_world 1792)\<lparr>nvml_init := NVML_ERROR 9\<rparr>"
  let ?b = "(demo_world 1792)\<lparr>nvml_handle := NVML_ERROR 2\<rparr>"
  let ?c = "(demo_world 1792)\<lparr>nvml_init := NVML_ERROR 9, wait_block := None\<rparr>"
  have a: "4 \<le> length (argv ?a)" "fork_ret ?a \<noteq> 0" "fork_ret ?a \<noteq> - 1"
          "nvml_init ?a \<noteq> NVML_SUCCESS \<or> nvml_handle ?a \<noteq> NVML_SUCCESS"
          "wait_block ?a = Some (Reaped 1792)" "files ?a = files (demo_world 1792)"
    by (simp_all add: demo_world_def)
  have b: "4 \<le> length (argv ?b)" "fork_ret ?b \<noteq> 0" "fork_ret ?b \<noteq> - 1"
          "nvml_init ?b \<noteq> NVML_SUCCESS \<or> nvml_handle ?b \<noteq> NVML_SUCCESS"
          "wait_block ?b = Some (Reaped 1792)" "nvml_init ?b = NVML_SUCCESS"
    by (simp_all add: demo_world_def)
  have c: "4 \<le> length (argv ?c)" "fork_ret ?c \<noteq> 0" "fork_ret ?c \<noteq> - 1"
          "nvml_init ?c \<noteq> NVML_SUCCESS \<or> nvml_handle ?c \<noteq> NVML_SUCCESS"
          "wait_block ?c = None"
    by (simp_all add: demo_world_def)
  have A: "map_option ending (main exact_fp ?a) = Some (Exit 4)
         \<and> map_option files_after (main exact_fp ?a) = Some (files (demo_world 1792))"
    using degraded_path [OF a(1-4), of exact_fp] a(5,6) by auto
  have B: "map_option ending (main exact_fp ?b) = Some (Exit 5)"
    using degraded_path [OF b(1-4), of exact_fp] b(5,6) by auto
  have C: "main exact_fp ?c = None"
    using degraded_path [OF c(1-4), of exact_fp] c(5) by blast
  show ?thesis using A B C by blast
qed

text \<open>
  C4, as the claim states it, fails: when \<^verbatim>\<open>execvp\<close> cannot execute the command, the child
  exits with 127, and the monitor, which reaps that status in its loop, exits with 127
  too but has replaced the content of the output file by a report.
\<close>

theorem nonexistent_command_counterexample:
  "map_option ending
     (main exact_fp ((demo_world (W_EXITCODE 127 0))\<lparr>execvp_ok := False, fork_ret := 0\<rparr>))
     = Some (Exit 127)
   \<and> map_option ending (main exact_fp ((demo_world (W_EXITCODE 127 0))\<lparr>execvp_ok := False\<rparr>))
     = Some (Exit 127)
   \<and> files ((demo_world (W_EXITCODE 127 0))\<lparr>execvp_ok := False\<rparr>) ''out.txt'' = Some ''stale''
   \<and> map_option (file_at ''out.txt'')
       (main exact_fp ((demo_world (W_EXITCODE 127 0))\<lparr>execvp_ok := False\<rparr>))
     = Some (Some demo_report)"
proof -
  let ?w = "demo_world (W_EXITCODE 127 0)"
  have same: "main exact_fp (?w\<lparr>execvp_ok := False\<rparr>) = main exact_fp ?w"
    by (simp add: main_def monitor_def finish_def Let_def demo_world_def)
  have child: "map_option ending (main exact_fp (?w\<lparr>execvp_ok := False, fork_ret := 0\<rparr>))
     = Some (Exit 127)"
    by (simp add: main_def child_pathway_def Let_def demo_world_def)
  have "files (?w\<lparr>execvp_ok := False\<rparr>) ''out.txt'' = Some ''stale''"
    by (simp add: demo_world_def)
  then show ?thesis
    unfolding same demo_run using child
    by (simp add: file_at_def exit_status_exited)
qed

text \<open>
  C4, amended. When the command cannot be executed, \<^verbatim>\<open>execvp\<close> returns in the child, which
  exits with 127. The monitor does not tell this child from any other: with NVML
  available and the output file writable it reaps the status of an exit with code 127,
  having taken one sample per poll, writes the report and exits with 127. Its exit code
  is 3 only when \<^verbatim>\<open>fork\<close> itself fails.
\<close>

theorem nonexistent_command:
  assumes "4 \<le> length (argv w)" "fork_ret w \<noteq> 0" "fork_ret w \<noteq> - 1"
      and "nvml_init w = NVML_SUCCESS" "nvml_handle w = NVML_SUCCESS" "open_ok w"
      and "ticks w = pre @ t # post" "\<forall>x\<in>set pre. \<not> is_reaped (t_wait x)"
      and "t_wait t = Reaped (W_EXITCODE 127 0)" "\<not> execvp_ok w"
  shows "map_option ending (main fp (w\<lparr>fork_ret := 0\<rparr>)) = Some (Exit 127)
       \<and> map_option ending (main fp (w\<lparr>fork_ret := - 1\<rparr>)) = Some (Exit 3)
       \<and> (\<exists>r sm. main fp w = Some r \<and> ending r = Exit 127
             \<and> files_after r = (files w)(argv w ! 2 \<mapsto> report_text fp (now_str w) sm)
             \<and> n_samples sm = length pre + 1)"
proof -
  have child: "map_option ending (main fp (w\<lparr>fork_ret := 0\<rparr>)) = Some (Exit 127)"
    using assms(1,10) by (simp add: main_def child_pathway_def Let_def)
  have nofork: "map_option ending (main fp (w\<lparr>fork_ret := - 1\<rparr>)) = Some (Exit 3)"
    using assms(1) by (simp add: main_def Let_def)
  let ?st = "sampling_loop fp (fork_ret w) (atoi (argv w ! 1)) (ticks w) loop_init"
  obtain st where run: "?st = Some st" and st: "status st = W_EXITCODE 127 0"
    and len: "length (powers st) = length pre + 1"
    unfolding assms(7) sampling_loop_run [OF assms(2,3,8,9)] by (simp add: loop_init_def)
  have m: "main fp w = Some (finish fp w (argv w ! 2) st)"
    unfolding main_parent [OF assms(1-5)] run by simp
  have e: "ending (finish fp w (argv w ! 2) st) = Exit 127"
    using assms(6) st by (simp add: finish_def Let_def exit_status_exited)
  have f: "files_after (finish fp w (argv w ! 2) st)
           = (files w)(argv w ! 2 \<mapsto> report_text fp (now_str w) (aggregate fp st (elapsed w)))"
    using assms(6) by (simp add: finish_def Let_def)
  have parent: "\<exists>r sm. main fp w = Some r \<and> ending r = Exit 127
             \<and> files_after r = (files w)(argv w ! 2 \<mapsto> report_text fp (now_str w) sm)
             \<and> n_samples sm = length pre + 1"
    using m e f len n_samples_aggregate by metis
  show ?thesis using child nofork parent by blast
qed

theorem nonexistent_command_witness:
  "map_option ending
     (main exact_fp ((demo_world (W_EXITCODE 127 0))\<lparr>execvp_ok := False, fork_ret := 0\<rparr>))
     = Some (Exit 127)
   \<and> map_option ending
     (main exact_fp ((demo_world (W_EXITCODE 127 0))\<lparr>execvp_ok := False, fork_ret := - 1\<rparr>))
     = Some (Exit 3)
   \<and> (\<exists>r sm. main exact_fp ((demo_world (W_EXITCODE 127 0))\<lparr>execvp_ok := False\<rparr>) = Some r
         \<and> ending r = Exit 127
         \<and> files_after r = (files (demo_world (W_EXITCODE 127 0)))
              (''out.txt'' \<mapsto> report_text exact_fp ''2025-01-01T00:00:00+0000'' sm)
         \<and> n_samples sm = 2)"
proof -
  let ?w = "(demo_world (W_EXITCODE 127 0))\<lparr>execvp_ok := False\<rparr>"
  have h: "4 \<le> length (argv ?w)" "fork_ret ?w \<noteq> 0" "fork_ret ?w \<noteq> - 1"
    "nvml_init ?w = NVML_SUCCESS" "nvml_handle ?w = NVML_SUCCESS" "open_ok ?w"
    "ticks ?w = [demo_tick StillRunning 120000] @ demo_tick (Reaped (W_EXITCODE 127 0)) 130500 # []"
    "\<forall>x\<in>set [demo_tick StillRunning 120000]. \<not> is_reaped (t_wait x)"
    "t_wait (demo_tick (Reaped (W_EXITCODE 127 0)) 130500) = Reaped (W_EXITCODE 127 0)"
    "\<not> execvp_ok ?w"
    by (simp_all add: demo_world_def demo_tick_def)
  have e: "argv ?w ! 2 = ''out.txt''" "files ?w = files (demo_world (W_EXITCODE 127 0))"
    "now_str ?w = ''2025-01-01T00:00:00+0000''"
    "length [demo_tick StillRunning 120000] + 1 = 2"
    by (simp_all add: demo_world_def)
  show ?thesis
    using nonexistent_command [OF h, of exact_fp] unfolding e .
qed

subsection \<open>Aggregation\<close>

text \<open>
  C5. The energy in the summary is the product, in \<^verbatim>\<open>double\<close> arithmetic, of the average power
  and the duration, and the duration is the measured span, not a sum over samples; the
  report prints these three values. In exact arithmetic the energy is the average power
  times the duration. This holds for every series, empty or not.
\<close>

theorem energy_estimate:
  "energy_j (aggregate fp st dur)
     = d_mul fp (avg_p (aggregate fp st dur)) (duration_s (aggregate fp st dur))
   \<and> duration_s (aggregate fp st dur) = dur
   \<and> (\<exists>a b. report_text fp buf (aggregate fp st dur)
          = a @ kv_line (''power_avg_w'', d_fixed3 fp (avg_p (aggregate fp st dur))) @ b
              @ kv_line (''duration_s'', d_fixed3 fp dur)
              @ kv_line (''energy_j'', d_fixed3 fp (d_mul fp (avg_p (aggregate fp st dur)) dur)))
   \<and> energy_j (aggregate exact_fp st' dur') = avg_p (aggregate exact_fp st' dur') * dur'"
proof -
  let ?sm = "aggregate fp st dur"
  have e: "energy_j ?sm = d_mul fp (avg_p ?sm) dur" and d: "duration_s ?sm = dur"
    by (simp_all add: aggregate_def Let_def)
  have x: "energy_j (aggregate exact_fp st' dur') = avg_p (aggregate exact_fp st' dur') * dur'"
    by (simp add: aggregate_def Let_def exact_fp_def)
  have "report_text fp buf ?sm
          = kv_line (''timestamp'', buf) @ kv_line (''power_avg_w'', d_fixed3 fp (avg_p ?sm))
            @ (kv_line (''gpu_core_clock_MHz'', d_fixed3 fp (avg_core ?sm))
               @ kv_line (''gpu_mem_clock_MHz'', d_fixed3 fp (avg_mem ?sm))
               @ kv_line (''gpu_utilization_pct'', d_fixed3 fp (avg_util ?sm))
               @ kv_line (''gpu_temp_c'', d_fixed3 fp (avg_temp ?sm))
               @ kv_line (''samples'', show_nat (n_samples ?sm)))
            @ kv_line (''duration_s'', d_fixed3 fp dur)
            @ kv_line (''energy_j'', d_fixed3 fp (d_mul fp (avg_p ?sm) dur))"
    unfolding report_text_lines e d by simp
  then have r: "\<exists>a b. report_text fp buf ?sm
          = a @ kv_line (''power_avg_w'', d_fixed3 fp (avg_p ?sm)) @ b
              @ kv_line (''duration_s'', d_fixed3 fp dur)
              @ kv_line (''energy_j'', d_fixed3 fp (d_mul fp (avg_p ?sm) dur))"
    by blast
  show ?thesis using e d r x by simp
qed

theorem energy_estimate_witness:
  "energy_j (aggregate exact_fp demo_state (1 / 4)) = 501 / 4 * (1 / 4)
   \<and> avg_p (aggregate exact_fp demo_state (1 / 4)) = 501 / 4"
  using energy_estimate [of exact_fp demo_state "1 / 4"]
  by (simp add: demo_summary demo_state_def)

lemma foldl_add_real: "foldl (+) a xs = a + sum_list (xs :: real list)"
  by (induction xs arbitrary: a) simp_all

text \<open>
  C8. With no sample, the count is 0 and the five averages are \<^verbatim>\<open>0.0\<close>. With samples, and
  as long as the four integer totals stay below \<open>2 ^ 63\<close> so that the \<^verbatim>\<open>long\<close> accumulators
  do not overflow (they cannot with fewer than \<open>2 ^ 31\<close> samples), the count is the
  length of the series and each average is the total of its vector divided by that
  length, both converted to \<^verbatim>\<open>double\<close>: the powers added up from \<^verbatim>\<open>0.0\<close> in order of
  sampling, the four others summed as integers. In exact arithmetic these are the
  arithmetic means.
\<close>

theorem aggregation_means:
  "(powers st = [] \<longrightarrow>
      n_samples (aggregate fp st dur) = 0
      \<and> avg_p (aggregate fp st dur) = d_of_int fp 0
      \<and> avg_core (aggregate fp st dur) = d_of_int fp 0
      \<and> avg_mem (aggregate fp st dur) = d_of_int fp 0
      \<and> avg_util (aggregate fp st dur) = d_of_int fp 0
      \<and> avg_temp (aggregate fp st dur) = d_of_int fp 0)
   \<and> (powers st \<noteq> [] \<and> aligned st
        \<and> total (core_clocks st) < 2 ^ 63 \<and> total (mem_clocks st) < 2 ^ 63
        \<and> total (utils st) < 2 ^ 63 \<and> total (temps st) < 2 ^ 63 \<longrightarrow>
      n_samples (aggregate fp st dur) = length (powers st)
      \<and> avg_p (aggregate fp st dur)
          = d_div fp (foldl (d_add fp) (d_of_int fp 0) (powers st))
              (d_of_int fp (int (length (powers st))))
      \<and> avg_core (aggregate fp st dur)
          = d_div fp (d_of_int fp (int (total (core_clocks st))))
              (d_of_int fp (int (length (core_clocks st))))
      \<and> avg_mem (aggregate fp st dur)
          = d_div fp (d_of_int fp (int (total (mem_clocks st))))
              (d_of_int fp (int (length (mem_clocks st))))
      \<and> avg_util (aggregate fp st dur)
          = d_div fp (d_of_int fp (int (total (utils st))))
              (d_of_int fp (int (length (utils st))))
      \<and> avg_temp (aggregate fp st dur)
          = d_div fp (d_of_int fp (int (total (temps st))))
              (d_of_int fp (int (length (temps st)))))
   \<and> (powers xt \<noteq> [] \<and> aligned xt
        \<and> total (core_clocks xt) < 2 ^ 63 \<and> total (mem_clocks xt) < 2 ^ 63
        \<and> total (utils xt) < 2 ^ 63 \<and> total (temps xt) < 2 ^ 63 \<longrightarrow>
      avg_p (aggregate exact_fp xt dur') = sum_list (powers xt) / real (length (powers xt))
      \<and> avg_core (aggregate exact_fp xt dur')
          = real (total (core_clocks xt)) / real (length (core_clocks xt))
      \<and> avg_mem (aggregate exact_fp xt dur')
          = real (total (mem_clocks xt)) / real (length (mem_clocks xt))
      \<and> avg_util (aggregate exact_fp xt dur')
          = real (total (utils xt)) / real (length (utils xt))
      \<and> avg_temp (aggregate exact_fp xt dur')
          = real (total (temps xt)) / real (length (temps xt)))"
proof (intro conjI impI)
  assume "powers st = []"
  then show "n_samples (aggregate fp st dur) = 0"
    "avg_p (aggregate fp st dur) = d_of_int fp 0"
    "avg_core (aggregate fp st dur) = d_of_int fp 0"
    "avg_mem (aggregate fp st dur) = d_of_int fp 0"
    "avg_util (aggregate fp st dur) = d_of_int fp 0"
    "avg_temp (aggregate fp st dur) = d_of_int fp 0"
    by (simp_all add: aggregate_def Let_def)
next
  assume h: "powers st \<noteq> [] \<and> aligned st
        \<and> total (core_clocks st) < 2 ^ 63 \<and> total (mem_clocks st) < 2 ^ 63
        \<and> total (utils st) < 2 ^ 63 \<and> total (temps st) < 2 ^ 63"
  then have a: "aligned st" and n: "0 < length (powers st)" by simp_all
  have l: "length (core_clocks st) = length (powers st)" "length (mem_clocks st) = length (powers st)"
    "length (utils st) = length (powers st)" "length (temps st) = length (powers st)"
    using a by (simp_all add: aligned_def)
  have s: "sint (word_of_nat (total (core_clocks st)) :: long) = int (total (core_clocks st))"
    "sint (word_of_nat (total (mem_clocks st)) :: long) = int (total (mem_clocks st))"
    "sint (word_of_nat (total (utils st)) :: long) = int (total (utils st))"
    "sint (word_of_nat (total (temps st)) :: long) = int (total (temps st))"
    using h by (simp_all add: sint_long)
  show "n_samples (aggregate fp st dur) = length (powers st)"
    "avg_p (aggregate fp st dur)
          = d_div fp (foldl (d_add fp) (d_of_int fp 0) (powers st))
              (d_of_int fp (int (length (powers st))))"
    "avg_core (aggregate fp st dur)
          = d_div fp (d_of_int fp (int (total (core_clocks st))))
              (d_of_int fp (int (length (core_clocks st))))"
    "avg_mem (aggregate fp st dur)
          = d_div fp (d_of_int fp (int (total (mem_clocks st))))
              (d_of_int fp (int (length (mem_clocks st))))"
    "avg_util (aggregate fp st dur)
          = d_div fp (d_of_int fp (int (total (utils st))))
              (d_of_int fp (int (length (utils st))))"
    "avg_temp (aggregate fp st dur)
          = d_div fp (d_of_int fp (int (total (temps st))))
              (d_of_int fp (int (length (temps st))))"
    using n by (simp_all add: aggregate_eq [OF a] Let_def s l)
next
  assume h: "powers xt \<noteq> [] \<and> aligned xt
        \<and> total (core_clocks xt) < 2 ^ 63 \<and> total (mem_clocks xt) < 2 ^ 63
        \<and> total (utils xt) < 2 ^ 63 \<and> total (temps xt) < 2 ^ 63"
  then have a: "aligned xt" and n: "0 < length (powers xt)" by simp_all
  have l: "length (core_clocks xt) = length (powers xt)" "length (mem_clocks xt) = length (powers xt)"
    "length (utils xt) = length (powers xt)" "length (temps xt) = length (powers xt)"
    using a by (simp_all add: aligned_def)
  have s: "sint (word_of_nat (total (core_clocks xt)) :: long) = int (total (core_clocks xt))"
    "sint (word_of_nat (total (mem_clocks xt)) :: long) = int (total (mem_clocks xt))"
    "sint (word_of_nat (total (utils xt)) :: long) = int (total (utils xt))"
    "sint (word_of_nat (total (temps xt)) :: long) = int (total (temps xt))"
    using h by (simp_all add: sint_long)
  show "avg_p (aggregate exact_fp xt dur') = sum_list (powers xt) / real (length (powers xt))"
    "avg_core (aggregate exact_fp xt dur')
          = real (total (core_clocks xt)) / real (length (core_clocks xt))"
    "avg_mem (aggregate exact_fp xt dur')
          = real (total (mem_clocks xt)) / real (length (mem_clocks xt))"
    "avg_util (aggregate exact_fp xt dur')
          = real (total (utils xt)) / real (length (utils xt))"
    "avg_temp (aggregate exact_fp xt dur')
          = real (total (temps xt)) / real (length (temps xt))"
    using n by (simp_all add: aggregate_eq [OF a] Let_def s l exact_fp_def foldl_add_real)
qed

theorem aggregation_means_witness:
  "n_samples (aggregate exact_fp loop_init 0) = 0
   \<and> avg_p (aggregate exact_fp loop_init 0) = 0
   \<and> avg_temp (aggregate exact_fp loop_init 0) = 0
   \<and> n_samples (aggregate exact_fp demo_state (1 / 4)) = 2
   \<and> avg_p (aggregate exact_fp demo_state (1 / 4)) = 501 / 4
   \<and> avg_core (aggregate exact_fp demo_state (1 / 4)) = 1500
   \<and> avg_mem (aggregate exact_fp demo_state (1 / 4)) = 5001
   \<and> avg_util (aggregate exact_fp demo_state (1 / 4)) = 0
   \<and> avg_temp (aggregate exact_fp demo_state (1 / 4)) = 60"
proof -
  have e: "powers (loop_init :: real loop_state) = []"
    by (simp add: loop_init_def)
  have d: "powers demo_state \<noteq> [] \<and> aligned demo_state
        \<and> total (core_clocks demo_state) < 2 ^ 63 \<and> total (mem_clocks demo_state) < 2 ^ 63
        \<and> total (utils demo_state) < 2 ^ 63 \<and> total (temps demo_state) < 2 ^ 63"
    by (simp add: demo_state_def aligned_def total_def)
  have v: "sum_list (powers demo_state) = 501 / 2" "length (powers demo_state) = 2"
    "total (core_clocks demo_state) = 3000" "length (core_clocks demo_state) = 2"
    "total (mem_clocks demo_state) = 10002" "length (mem_clocks demo_state) = 2"
    "total (utils demo_state) = 0" "length (utils demo_state) = 2"
    "total (temps demo_state) = 120" "length (temps demo_state) = 2"
    by (simp_all add: demo_state_def total_def)
  have z: "d_of_int exact_fp 0 = 0" by (simp add: exact_fp_def)
  show ?thesis
    using aggregation_means [of loop_init exact_fp 0 demo_state "1 / 4"]
          aggregation_means [of demo_state exact_fp "1 / 4" demo_state "1 / 4"] e d
    by (simp add: v z)
qed

subsection \<open>The five vectors\<close>

lemma iteration_lengths:
  "length (powers (iteration fp t st)) = Suc (length (powers st))"
  "length (core_clocks (iteration fp t st)) = Suc (length (core_clocks st))"
  "length (mem_clocks (iteration fp t st)) = Suc (length (mem_clocks st))"
  "length (utils (iteration fp t st)) = Suc (length (utils st))"
  "length (temps (iteration fp t st)) = Suc (length (temps st))"
  by (simp_all add: iteration_def)

lemma sampling_loop_aligned:
  "aligned st \<Longrightarrow> sampling_loop fp pid ms ts st = Some st'
     \<Longrightarrow> aligned st' \<and> length (powers st) < length (powers st')"
proof (induction ts arbitrary: st)
  case Nil
  then show ?case by simp
next
  case (Cons t ts)
  let ?it = "iteration fp t st"
  have a: "aligned ?it" using Cons.prems(1) by (simp add: aligned_def iteration_lengths)
  show ?case
  proof (cases "waitpid_ret pid (t_wait t) = pid")
    case True
    then have "st' = ?it" using Cons.prems(2) by simp
    then show ?thesis using a by (simp add: iteration_lengths)
  next
    case False
    let ?sl = "?it\<lparr>calls := calls ?it @ [Sleep_ms ms]\<rparr>"
    have r: "sampling_loop fp pid ms ts ?sl = Some st'"
      using Cons.prems(2) False by (simp add: Let_def)
    have "aligned ?sl" using a by (simp add: aligned_def)
    from Cons.IH [OF this r] show ?thesis by (simp add: iteration_lengths)
  qed
qed

lemma demo_loop:
  "sampling_loop exact_fp 4242 100 [demo_tick StillRunning 120000, demo_tick (Reaped 1792) 130500]
     loop_init
   = Some (demo_state\<lparr>calls := [Fork, NvmlInit, NvmlDeviceGetHandleByIndex 0]
           @ Waitpid_WNOHANG # queries @ [Sleep_ms 100] @ Waitpid_WNOHANG # queries\<rparr>)"
  by (simp add: loop_init_def iteration_def demo_tick_def demo_state_def
        power_w_def core_mhz_val_def mem_mhz_val_def gpu_util_def tval_def exact_fp_def)

text \<open>
  C9. One iteration makes each of the five vectors one element longer, whatever the
  tick. On a run that reaches the loop and in which \<open>t\<close> is the first tick whose poll reaps
  the child, the loop returns with the five vectors of one length, the number of polls up
  to and including that of \<open>t\<close>; \<^verbatim>\<open>main\<close> returns, the count in the summary is that length,
  the \<^verbatim>\<open>samples\<close> line of the file written prints it, and each of the five averages is a
  division by it.
\<close>

theorem parallel_series:
  assumes "4 \<le> length (argv w)" "fork_ret w \<noteq> 0" "fork_ret w \<noteq> - 1"
      and "nvml_init w = NVML_SUCCESS" "nvml_handle w = NVML_SUCCESS" "open_ok w"
      and "ticks w = pre @ t # post" "\<forall>x\<in>set pre. \<not> is_reaped (t_wait x)"
      and "is_reaped (t_wait t)"
  shows "length (powers (iteration fp x st)) = length (powers st) + 1
   \<and> length (core_clocks (iteration fp x st)) = length (core_clocks st) + 1
   \<and> length (mem_clocks (iteration fp x st)) = length (mem_clocks st) + 1
   \<and> length (utils (iteration fp x st)) = length (utils st) + 1
   \<and> length (temps (iteration fp x st)) = length (temps st) + 1
   \<and> (\<exists>st' r a b.
        sampling_loop fp (fork_ret w) (atoi (argv w ! 1)) (ticks w) loop_init = Some st'
        \<and> length (powers st') = length pre + 1
        \<and> length (core_clocks st') = length pre + 1
        \<and> length (mem_clocks st') = length pre + 1
        \<and> length (utils st') = length pre + 1
        \<and> length (temps st') = length pre + 1
        \<and> main fp w = Some r
        \<and> n_samples (aggregate fp st' (elapsed w)) = length pre + 1
        \<and> file_at (argv w ! 2) r
            = Some (a @ kv_line (''samples'', show_nat (length pre + 1)) @ b)
        \<and> avg_p (aggregate fp st' (elapsed w))
            = d_div fp (foldl (d_add fp) (d_of_int fp 0) (powers st'))
                (d_of_int fp (int (length pre + 1)))
        \<and> avg_core (aggregate fp st' (elapsed w))
            = d_div fp (d_of_int fp (sint (word_of_nat (total (core_clocks st')) :: long)))
                (d_of_int fp (int (length pre + 1)))
        \<and> avg_mem (aggregate fp st' (elapsed w))
            = d_div fp (d_of_int fp (sint (word_of_nat (total (mem_clocks st')) :: long)))
                (d_of_int fp (int (length pre + 1)))
        \<and> avg_util (aggregate fp st' (elapsed w))
            = d_div fp (d_of_int fp (sint (word_of_nat (total (utils st')) :: long)))
                (d_of_int fp (int (length pre + 1)))
        \<and> avg_temp (aggregate fp st' (elapsed w))
            = d_div fp (d_of_int fp (sint (word_of_nat (total (temps st')) :: long)))
                (d_of_int fp (int (length pre + 1))))"
proof (intro conjI)
  obtain s where s: "t_wait t = Reaped s"
    using assms(9) by (cases "t_wait t") auto
  let ?out = "argv w ! 2"
  let ?n = "length pre + 1"
  obtain st' where run: "sampling_loop fp (fork_ret w) (atoi (argv w ! 1)) (ticks w) loop_init = Some st'"
    and l: "length (powers st') = ?n" "length (core_clocks st') = ?n"
      "length (mem_clocks st') = ?n" "length (utils st') = ?n" "length (temps st') = ?n"
    unfolding assms(7) sampling_loop_run [OF assms(2,3,8) s] by (simp add: loop_init_def)
  have a: "aligned st'" by (simp add: aligned_def l)
  let ?sm = "aggregate fp st' (elapsed w)"
  let ?r = "finish fp w ?out st'"
  have m: "main fp w = Some ?r"
    unfolding main_parent [OF assms(1-5)] run by simp
  have n: "n_samples ?sm = ?n"
    unfolding n_samples_aggregate by (rule l(1))
  have "file_at ?out ?r = Some (report_text fp (now_str w) ?sm)"
    using assms(6) by (simp add: finish_def file_at_def Let_def)
  also have "report_text fp (now_str w) ?sm
      = (kv_line (''timestamp'', now_str w)
         @ kv_line (''power_avg_w'', d_fixed3 fp (avg_p ?sm))
         @ kv_line (''gpu_core_clock_MHz'', d_fixed3 fp (avg_core ?sm))
         @ kv_line (''gpu_mem_clock_MHz'', d_fixed3 fp (avg_mem ?sm))
         @ kv_line (''gpu_utilization_pct'', d_fixed3 fp (avg_util ?sm))
         @ kv_line (''gpu_temp_c'', d_fixed3 fp (avg_temp ?sm)))
        @ kv_line (''samples'', show_nat ?n)
        @ (kv_line (''duration_s'', d_fixed3 fp (duration_s ?sm))
           @ kv_line (''energy_j'', d_fixed3 fp (energy_j ?sm)))"
    unfolding report_text_lines n by simp
  finally have f: "\<exists>a b. file_at ?out ?r = Some (a @ kv_line (''samples'', show_nat ?n) @ b)"
    by blast
  have avg: "avg_p ?sm = d_div fp (foldl (d_add fp) (d_of_int fp 0) (powers st'))
                (d_of_int fp (int ?n))"
    "avg_core ?sm = d_div fp (d_of_int fp (sint (word_of_nat (total (core_clocks st')) :: long)))
                (d_of_int fp (int ?n))"
    "avg_mem ?sm = d_div fp (d_of_int fp (sint (word_of_nat (total (mem_clocks st')) :: long)))
                (d_of_int fp (int ?n))"
    "avg_util ?sm = d_div fp (d_of_int fp (sint (word_of_nat (total (utils st')) :: long)))
                (d_of_int fp (int ?n))"
    "avg_temp ?sm = d_div fp (d_of_int fp (sint (word_of_nat (total (temps st')) :: long)))
                (d_of_int fp (int ?n))"
    by (simp_all add: aggregate_eq [OF a] Let_def l)
  show "\<exists>st' r a b.
        sampling_loop fp (fork_ret w) (atoi (argv w ! 1)) (ticks w) loop_init = Some st'
        \<and> length (powers st') = length pre + 1
        \<and> length (core_clocks st') = length pre + 1
        \<and> length (mem_clocks st') = length pre + 1
        \<and> length (utils st') = length pre + 1
        \<and> length (temps st') = length pre + 1
        \<and> main fp w = Some r
        \<and> n_samples (aggregate fp st' (elapsed w)) = length pre + 1
        \<and> file_at (argv w ! 2) r
            = Some (a @ kv_line (''samples'', show_nat (length pre + 1)) @ b)
        \<and> avg_p (aggregate fp st' (elapsed w))
            = d_div fp (foldl (d_add fp) (d_of_int fp 0) (powers st'))
                (d_of_int fp (int (length pre + 1)))
        \<and> avg_core (aggregate fp st' (elapsed w))
            = d_div fp (d_of_int fp (sint (word_of_nat (total (core_clocks st')) :: long)))
                (d_of_int fp (int (length pre + 1)))
        \<and> avg_mem (aggregate fp st' (elapsed w))
            = d_div fp (d_of_int fp (sint (word_of_nat (total (mem_clocks st')) :: long)))
                (d_of_int fp (int (length pre + 1)))
        \<and> avg_util (aggregate fp st' (elapsed w))
            = d_div fp (d_of_int fp (sint (word_of_nat (total (utils st')) :: long)))
                (d_of_int fp (int (length pre + 1)))
        \<and> avg_temp (aggregate fp st' (elapsed w))
            = d_div fp (d_of_int fp (sint (word_of_nat (total (temps st')) :: long)))
                (d_of_int fp (int (length pre + 1)))"
    using run l m n f avg by blast
qed (simp_all add: iteration_lengths)

theorem parallel_series_witness:
  "(\<exists>st'. sampling_loop exact_fp 4242 100
             [demo_tick StillRunning 120000, demo_tick (Reaped 1792) 130500] loop_init = Some st'
        \<and> length (powers st') = 2 \<and> length (core_clocks st') = 2
        \<and> length (mem_clocks st') = 2 \<and> length (utils st') = 2 \<and> length (temps st') = 2
        \<and> n_samples (aggregate exact_fp st' (1 / 4)) = 2
        \<and> avg_temp (aggregate exact_fp st' (1 / 4)) = 120 / 2)
   \<and> map_option (file_at ''out.txt'') (main exact_fp (demo_world 1792)) = Some (Some demo_report)
   \<and> length (powers (iteration exact_fp (demo_tick StillRunning 120000) demo_state)) = 3
   \<and> length (temps (iteration exact_fp (demo_tick StillRunning 120000) demo_state)) = 3"
proof -
  have r: "is_reaped (t_wait (demo_tick (Reaped 1792) 130500))"
    by (simp add: demo_tick_def)
  note th = parallel_series [OF demo_world_facts(1-8) r, where fp = exact_fp
      and x = "demo_tick StillRunning 120000" and st = demo_state]
  have e: "argv (demo_world 1792) ! 1 = ''100''" "fork_ret (demo_world 1792) = 4242"
    "elapsed (demo_world 1792) = 1 / 4"
    "ticks (demo_world 1792) = [demo_tick StillRunning 120000, demo_tick (Reaped 1792) 130500]"
    "length [demo_tick StillRunning 120000] + 1 = 2"
    by (simp_all add: demo_world_def)
  have l: "length (powers demo_state) = 2" "length (temps demo_state) = 2"
    by (simp_all add: demo_state_def)
  obtain st' where run: "sampling_loop exact_fp 4242 100
             [demo_tick StillRunning 120000, demo_tick (Reaped 1792) 130500] loop_init = Some st'"
    and len: "length (powers st') = 2" "length (core_clocks st') = 2"
        "length (mem_clocks st') = 2" "length (utils st') = 2" "length (temps st') = 2"
    and n: "n_samples (aggregate exact_fp st' (1 / 4)) = 2"
    and t: "avg_temp (aggregate exact_fp st' (1 / 4))
            = d_div exact_fp (d_of_int exact_fp (sint (word_of_nat (total (temps st')) :: long)))
                (d_of_int exact_fp (int 2))"
    using th unfolding e atoi_100 by blast
  have "temps st' = [60, 60]"
    using run demo_loop by (simp add: demo_state_def)
  then have t': "avg_temp (aggregate exact_fp st' (1 / 4)) = 120 / 2"
    unfolding t by (simp add: total_def exact_fp_def)
  have a: "\<exists>st'. sampling_loop exact_fp 4242 100
             [demo_tick StillRunning 120000, demo_tick (Reaped 1792) 130500] loop_init = Some st'
        \<and> length (powers st') = 2 \<and> length (core_clocks st') = 2
        \<and> length (mem_clocks st') = 2 \<and> length (utils st') = 2 \<and> length (temps st') = 2
        \<and> n_samples (aggregate exact_fp st' (1 / 4)) = 2
        \<and> avg_temp (aggregate exact_fp st' (1 / 4)) = 120 / 2"
    using run len n t' by blast
  have b: "map_option (file_at ''out.txt'') (main exact_fp (demo_world 1792)) = Some (Some demo_report)"
    by (simp add: demo_run file_at_def)
  have c: "length (powers (iteration exact_fp (demo_tick StillRunning 120000) demo_state)) = 3"
    "length (temps (iteration exact_fp (demo_tick StillRunning 120000) demo_state)) = 3"
    using th unfolding l by simp_all
  show ?thesis using a b c by blast
qed

subsection \<open>The report file\<close>

text \<open>
  C7. When the loop has ended and the output file can be opened, the file named by the
  second argument holds, after the run, exactly nine lines \<open>key=value\<close>, with the keys
  \<^verbatim>\<open>timestamp\<close>, \<^verbatim>\<open>power_avg_w\<close>, \<^verbatim>\<open>gpu_core_clock_MHz\<close>, \<^verbatim>\<open>gpu_mem_clock_MHz\<close>,
  \<^verbatim>\<open>gpu_utilization_pct\<close>, \<^verbatim>\<open>gpu_temp_c\<close>, \<^verbatim>\<open>samples\<close>, \<^verbatim>\<open>duration_s\<close>, \<^verbatim>\<open>energy_j\<close> in this
  order; the time stamp is the \<^verbatim>\<open>strftime\<close> buffer, the count is printed as an integer and
  the seven other values in fixed notation with three decimals. The file is opened with
  truncation: whatever it held before, it holds these nine lines afterwards, and no
  other file changes.
\<close>

theorem report_format:
  assumes "4 \<le> length (argv w)" "fork_ret w \<noteq> 0" "fork_ret w \<noteq> - 1"
      and "nvml_init w = NVML_SUCCESS" "nvml_handle w = NVML_SUCCESS" "open_ok w"
      and "ticks w = pre @ t # post" "\<forall>x\<in>set pre. \<not> is_reaped (t_wait x)"
      and "is_reaped (t_wait t)"
  shows "\<exists>r st. sampling_loop fp (fork_ret w) (atoi (argv w ! 1)) (ticks w) loop_init = Some st
           \<and> main fp w = Some r
           \<and> file_at (argv w ! 2) r = Some (concat (map kv_line
                [(''timestamp'', now_str w),
                 (''power_avg_w'', d_fixed3 fp (avg_p (aggregate fp st (elapsed w)))),
                 (''gpu_core_clock_MHz'', d_fixed3 fp (avg_core (aggregate fp st (elapsed w)))),
                 (''gpu_mem_clock_MHz'', d_fixed3 fp (avg_mem (aggregate fp st (elapsed w)))),
                 (''gpu_utilization_pct'', d_fixed3 fp (avg_util (aggregate fp st (elapsed w)))),
                 (''gpu_temp_c'', d_fixed3 fp (avg_temp (aggregate fp st (elapsed w)))),
                 (''samples'', show_nat (n_samples (aggregate fp st (elapsed w)))),
                 (''duration_s'', d_fixed3 fp (duration_s (aggregate fp st (elapsed w)))),
                 (''energy_j'', d_fixed3 fp (energy_j (aggregate fp st (elapsed w))))]))
           \<and> (\<forall>path. path \<noteq> argv w ! 2 \<longrightarrow> file_at path r = files w path)
           \<and> (\<forall>old. map_option (file_at (argv w ! 2))
                       (main fp (w\<lparr>files := (files w)(argv w ! 2 \<mapsto> old)\<rparr>))
                     = Some (file_at (argv w ! 2) r))
           \<and> Open_trunc (argv w ! 2) \<in> set (trace r)"
proof -
  obtain s where s: "t_wait t = Reaped s"
    using assms(9) by (cases "t_wait t") auto
  let ?out = "argv w ! 2"
  obtain st where run: "sampling_loop fp (fork_ret w) (atoi (argv w ! 1)) (ticks w) loop_init = Some st"
    unfolding assms(7) sampling_loop_run [OF assms(2,3,8) s] by simp
  let ?r = "finish fp w ?out st"
  have m: "main fp w = Some ?r"
    unfolding main_parent [OF assms(1-5)] run by simp
  have f: "file_at ?out ?r = Some (report_text fp (now_str w) (aggregate fp st (elapsed w)))"
    using assms(6) by (simp add: finish_def file_at_def Let_def)
  have o: "\<forall>path. path \<noteq> ?out \<longrightarrow> file_at path ?r = files w path"
    using assms(6) by (simp add: finish_def file_at_def Let_def)
  have tr: "Open_trunc ?out \<in> set (trace ?r)"
    using assms(6) by (simp add: finish_def Let_def)
  have again: "map_option (file_at ?out) (main fp (w\<lparr>files := (files w)(?out \<mapsto> old)\<rparr>))
                 = Some (file_at ?out ?r)" for old
  proof -
    let ?w = "w\<lparr>files := (files w)(?out \<mapsto> old)\<rparr>"
    have h: "4 \<le> length (argv ?w)" "fork_ret ?w \<noteq> 0" "fork_ret ?w \<noteq> - 1"
      "nvml_init ?w = NVML_SUCCESS" "nvml_handle ?w = NVML_SUCCESS"
      using assms(1-5) by simp_all
    have "main fp ?w = Some (finish fp ?w ?out st)"
      unfolding main_parent [OF h] using run by simp
    then show ?thesis
      using assms(6) by (simp add: finish_def file_at_def Let_def)
  qed
  show ?thesis
    using run m f o tr again unfolding report_text_lines by blast
qed

theorem report_format_witness:
  "files (demo_world 1792) ''out.txt'' = Some ''stale''
   \<and> map_option (file_at ''out.txt'') (main exact_fp (demo_world 1792)) = Some (Some demo_report)
   \<and> (\<exists>r st. sampling_loop exact_fp 4242 100 (ticks (demo_world 1792)) loop_init = Some st
          \<and> main exact_fp (demo_world 1792) = Some r
          \<and> file_at ''out.txt'' r = Some (concat (map kv_line
                [(''timestamp'', ''2025-01-01T00:00:00+0000''),
                 (''power_avg_w'', fixed3_real (avg_p (aggregate exact_fp st (1 / 4)))),
                 (''gpu_core_clock_MHz'', fixed3_real (avg_core (aggregate exact_fp st (1 / 4)))),
                 (''gpu_mem_clock_MHz'', fixed3_real (avg_mem (aggregate exact_fp st (1 / 4)))),
                 (''gpu_utilization_pct'', fixed3_real (avg_util (aggregate exact_fp st (1 / 4)))),
                 (''gpu_temp_c'', fixed3_real (avg_temp (aggregate exact_fp st (1 / 4)))),
                 (''samples'', show_nat (n_samples (aggregate exact_fp st (1 / 4)))),
                 (''duration_s'', fixed3_real (duration_s (aggregate exact_fp st (1 / 4)))),
                 (''energy_j'', fixed3_real (energy_j (aggregate exact_fp st (1 / 4))))])))"
proof -
  have r: "is_reaped (t_wait (demo_tick (Reaped 1792) 130500))"
    by (simp add: demo_tick_def)
  have e: "argv (demo_world 1792) ! 2 = ''out.txt''" "argv (demo_world 1792) ! 1 = ''100''"
    "fork_ret (demo_world 1792) = 4242" "elapsed (demo_world 1792) = 1 / 4"
    "now_str (demo_world 1792) = ''2025-01-01T00:00:00+0000''" "d_fixed3 exact_fp = fixed3_real"
    by (simp_all add: demo_world_def exact_fp_def)
  have a: "files (demo_world 1792) ''out.txt'' = Some ''stale''"
    by (simp add: demo_world_def)
  have b: "map_option (file_at ''out.txt'') (main exact_fp (demo_world 1792)) = Some (Some demo_report)"
    by (simp add: demo_run file_at_def)
  have c: "\<exists>r st. sampling_loop exact_fp 4242 100 (ticks (demo_world 1792)) loop_init = Some st
          \<and> main exact_fp (demo_world 1792) = Some r
          \<and> file_at ''out.txt'' r = Some (concat (map kv_line
                [(''timestamp'', ''2025-01-01T00:00:00+0000''),
                 (''power_avg_w'', fixed3_real (avg_p (aggregate exact_fp st (1 / 4)))),
                 (''gpu_core_clock_MHz'', fixed3_real (avg_core (aggregate exact_fp st (1 / 4)))),
                 (''gpu_mem_clock_MHz'', fixed3_real (avg_mem (aggregate exact_fp st (1 / 4)))),
                 (''gpu_utilization_pct'', fixed3_real (avg_util (aggregate exact_fp st (1 / 4)))),
                 (''gpu_temp_c'', fixed3_real (avg_temp (aggregate exact_fp st (1 / 4)))),
                 (''samples'', show_nat (n_samples (aggregate exact_fp st (1 / 4)))),
                 (''duration_s'', fixed3_real (duration_s (aggregate exact_fp st (1 / 4)))),
                 (''energy_j'', fixed3_real (energy_j (aggregate exact_fp st (1 / 4))))]))"
    using report_format [OF demo_world_facts(1-8) r, where fp = exact_fp]
    unfolding e atoi_100 by blast
  show ?thesis using a b c by blast
qed

subsection \<open>The sampling interval\<close>

lemma add_sample_calls: "add_sample fp (st\<lparr>calls := c\<rparr>) i sm = add_sample fp st i sm"
  by (simp add: add_sample_def)

lemma sum_loop_calls: "sum_loop fp (st\<lparr>calls := c\<rparr>) n i sm = sum_loop fp st n i sm"
proof (induction fp st n i sm rule: sum_loop.induct)
  case (1 fp st n i sm)
  show ?case
  proof (cases "i < n")
    case True
    have "sum_loop fp (st\<lparr>calls := c\<rparr>) n i sm
            = sum_loop fp (st\<lparr>calls := c\<rparr>) n (Suc i) (add_sample fp st i sm)"
      using True by (simp add: sum_loop.simps [of fp "st\<lparr>calls := c\<rparr>" n i sm] add_sample_calls)
    also have "\<dots> = sum_loop fp st n (Suc i) (add_sample fp st i sm)"
      by (rule "1.IH" [OF True])
    also have "\<dots> = sum_loop fp st n i sm"
      using True by (simp add: sum_loop.simps [of fp st n i sm])
    finally show ?thesis .
  next
    case False
    then show ?thesis
      by (simp add: sum_loop.simps [of fp "st\<lparr>calls := c\<rparr>" n i sm] sum_loop.simps [of fp st n i sm])
  qed
qed

lemma aggregate_calls: "aggregate fp (st\<lparr>calls := c\<rparr>) dur = aggregate fp st dur"
  by (simp add: aggregate_def sum_loop_calls)

lemma set_sleep_queries: "map (set_sleep ms) queries = queries"
  by (simp add: queries_def)

lemma sampling_loop_retime:
  "sampling_loop fp pid ms' ts (st\<lparr>calls := map (set_sleep ms') (calls st)\<rparr>)
     = map_option (\<lambda>s. s\<lparr>calls := map (set_sleep ms') (calls s)\<rparr>)
         (sampling_loop fp pid ms ts st)"
proof (induction ts arbitrary: st)
  case Nil
  show ?case by simp
next
  case (Cons t ts)
  let ?f = "map (set_sleep ms')"
  have it: "iteration fp t (st\<lparr>calls := ?f (calls st)\<rparr>)
              = (iteration fp t st)\<lparr>calls := ?f (calls (iteration fp t st))\<rparr>"
    by (simp add: iteration_def set_sleep_queries)
  show ?case
  proof (cases "waitpid_ret pid (t_wait t) = pid")
    case True
    then show ?thesis by (simp add: it Let_def)
  next
    case False
    let ?sl = "(iteration fp t st)\<lparr>calls := calls (iteration fp t st) @ [Sleep_ms ms]\<rparr>"
    have "sampling_loop fp pid ms' (t # ts) (st\<lparr>calls := ?f (calls st)\<rparr>)
            = sampling_loop fp pid ms' ts (?sl\<lparr>calls := ?f (calls ?sl)\<rparr>)"
      using False by (simp add: it Let_def)
    also have "\<dots> = map_option (\<lambda>s. s\<lparr>calls := ?f (calls s)\<rparr>) (sampling_loop fp pid ms ts ?sl)"
      by (rule Cons.IH)
    also have "sampling_loop fp pid ms ts ?sl = sampling_loop fp pid ms (t # ts) st"
      using False by (simp add: Let_def)
    finally show ?thesis .
  qed
qed

lemma finish_retime:
  "finish fp w out (st\<lparr>calls := map (set_sleep ms) (calls st)\<rparr>) = retime ms (finish fp w out st)"
  by (simp add: finish_def retime_def aggregate_calls Let_def)

lemma finish_argv: "finish fp (w\<lparr>argv := a\<rparr>) out st = finish fp w out st"
  by (simp add: finish_def Let_def)

lemma main_cases:
  "main fp w =
     (if length (argv w) < 4
      then Some \<lparr>ending = Exit 2, files_after = files w, trace = [Stderr Usage]\<rparr>
      else if fork_ret w = - 1
      then Some \<lparr>ending = Exit 3, files_after = files w, trace = [Fork, Stderr Perror_fork]\<rparr>
      else if fork_ret w = 0 then Some (child_pathway w (drop 3 (argv w)))
      else if nvml_init w \<noteq> NVML_SUCCESS
      then map_option (\<lambda>r. \<lparr>ending = Exit 4, files_after = files w,
                      trace = [Fork, NvmlInit, Stderr (NVML_init_failed (nvml_init w)),
                               Waitpid_blocking]\<rparr>) (wait_block w)
      else if nvml_handle w \<noteq> NVML_SUCCESS
      then map_option (\<lambda>r. \<lparr>ending = Exit 5, files_after = files w,
                      trace = [Fork, NvmlInit, NvmlDeviceGetHandleByIndex 0,
                               Stderr (NVML_get_device_failed (nvml_handle w)),
                               NvmlShutdown, Waitpid_blocking]\<rparr>) (wait_block w)
      else map_option (finish fp w (argv w ! 2))
             (sampling_loop fp (fork_ret w) (atoi (argv w ! 1)) (ticks w) loop_init))"
  by (simp add: main_def monitor_def Let_def split: option.split)

lemma atoi_non_numeric:
  assumes "\<not> isspace c" "\<not> isdigit c" "c \<noteq> CHR ''-''" "c \<noteq> CHR ''+''"
  shows "atoi (c # cs) = 0"
  using assms by (simp add: atoi_def strtol_def Let_def)

lemma loop_calls_usage:
  "sampling_loop fp pid ms ts st = Some st' \<Longrightarrow> Stderr Usage \<notin> set (calls st)
     \<Longrightarrow> Stderr Usage \<notin> set (calls st')"
proof (induction ts arbitrary: st)
  case Nil
  then show ?case by simp
next
  case (Cons t ts)
  have it: "Stderr Usage \<notin> set (calls (iteration fp t st))"
    using Cons.prems(2) by (simp add: iteration_def queries_def)
  show ?case
  proof (cases "waitpid_ret pid (t_wait t) = pid")
    case True
    then show ?thesis using Cons.prems(1) it by auto
  next
    case False
    let ?sl = "(iteration fp t st)\<lparr>calls := calls (iteration fp t st) @ [Sleep_ms ms]\<rparr>"
    have "sampling_loop fp pid ms ts ?sl = Some st'"
      using Cons.prems(1) False by (simp add: Let_def)
    moreover have "Stderr Usage \<notin> set (calls ?sl)" using it by simp
    ultimately show ?thesis by (rule Cons.IH)
  qed
qed

text \<open>
  C10. With four arguments or more, whatever string stands for the interval, the run is
  the run with any other interval, up to the duration of its sleeps, which is \<^verbatim>\<open>atoi\<close> of
  the string: the same ending, the same files, the same calls. No usage message is
  printed. A string that starts with a character that is neither white space, nor a
  sign, nor a digit is read as 0; nothing checks that the interval is positive.
\<close>

theorem interval_not_validated:
  assumes "4 \<le> length (argv w)"
  shows "main fp (w\<lparr>argv := (argv w)[1 := s]\<rparr>) = map_option (retime (atoi s)) (main fp w)
       \<and> (\<forall>r. main fp (w\<lparr>argv := (argv w)[1 := s]\<rparr>) = Some r \<longrightarrow>
             Stderr Usage \<notin> set (trace r))
       \<and> (\<forall>ms r. ending (retime ms r) = ending r \<and> files_after (retime ms r) = files_after r)
       \<and> (\<forall>c cs. s = c # cs \<and> \<not> isspace c \<and> \<not> isdigit c \<and> c \<noteq> CHR ''-'' \<and> c \<noteq> CHR ''+''
             \<longrightarrow> atoi s = 0)"
proof (intro conjI)
  let ?w = "w\<lparr>argv := (argv w)[1 := s]\<rparr>"
  have a: "length (argv ?w) = length (argv w)" "argv ?w ! 1 = s" "argv ?w ! 2 = argv w ! 2"
    "drop 3 (argv ?w) = drop 3 (argv w)"
    using assms by simp_all
  have l: "(loop_init :: 'a loop_state)
      = loop_init\<lparr>calls := map (set_sleep (atoi s)) (calls (loop_init :: 'a loop_state))\<rparr>"
    by (simp add: loop_init_def)
  have loop: "sampling_loop fp (fork_ret w) (atoi s) (ticks w) loop_init
      = map_option (\<lambda>x. x\<lparr>calls := map (set_sleep (atoi s)) (calls x)\<rparr>)
          (sampling_loop fp (fork_ret w) (atoi (argv w ! 1)) (ticks w) loop_init)"
    by (subst l) (rule sampling_loop_retime)
  show eq: "main fp ?w = map_option (retime (atoi s)) (main fp w)"
    unfolding main_cases [of fp ?w] main_cases [of fp w] a
    using assms
    by (simp add: loop finish_argv finish_retime retime_def child_pathway_def
          option.map_comp comp_def)
  show "\<forall>r. main fp ?w = Some r \<longrightarrow> Stderr Usage \<notin> set (trace r)"
  proof (intro allI impI)
    fix r assume r: "main fp ?w = Some r"
    have i: "Stderr Usage \<notin> set (calls (loop_init :: 'a loop_state))"
      by (simp add: loop_init_def)
    show "Stderr Usage \<notin> set (trace r)"
      using r assms loop_calls_usage [OF _ i]
      unfolding main_cases [of fp ?w] a
      by (auto simp: child_pathway_def finish_def Let_def split: if_splits)
  qed
  show "\<forall>ms r. ending (retime ms r) = ending r \<and> files_after (retime ms r) = files_after r"
    by (simp add: retime_def)
  show "\<forall>c cs. s = c # cs \<and> \<not> isspace c \<and> \<not> isdigit c \<and> c \<noteq> CHR ''-'' \<and> c \<noteq> CHR ''+''
          \<longrightarrow> atoi s = 0"
    using atoi_non_numeric by blast
qed

theorem interval_not_validated_witness:
  "atoi ''abc'' = 0
   \<and> map_option ending
        (main exact_fp ((demo_world 1792)\<lparr>argv := (argv (demo_world 1792))[1 := ''abc'']\<rparr>))
      = Some (Exit 7)
   \<and> map_option (file_at ''out.txt'')
        (main exact_fp ((demo_world 1792)\<lparr>argv := (argv (demo_world 1792))[1 := ''-5'']\<rparr>))
      = Some (Some demo_report)
   \<and> map_option trace
        (main exact_fp ((demo_world 1792)\<lparr>argv := (argv (demo_world 1792))[1 := ''-5'']\<rparr>))
      = Some ([Fork, NvmlInit, NvmlDeviceGetHandleByIndex 0]
           @ Waitpid_WNOHANG # queries @ [Sleep_ms (- 5)]
           @ Waitpid_WNOHANG # queries @ [Open_trunc ''out.txt'', Close_file, NvmlShutdown])"
proof -
  have len: "4 \<le> length (argv (demo_world 1792))" by (simp add: demo_world_def)
  note abc = interval_not_validated [OF len, where fp = exact_fp and s = "''abc''"]
  note neg = interval_not_validated [OF len, where fp = exact_fp and s = "''-5''"]
  have c: "\<not> isspace CHR ''a''" "\<not> isdigit CHR ''a''" "CHR ''a'' \<noteq> CHR ''-''"
    "CHR ''a'' \<noteq> CHR ''+''"
    by (simp_all add: isspace_def isdigit_def)
  have a0: "atoi ''abc'' = 0"
    using abc [THEN conjunct2, THEN conjunct2, THEN conjunct2, rule_format, of "CHR ''a''" "''bc''"] c
    by simp
  have a5: "atoi ''-5'' = - 5"
    by (simp add: atoi_def strtol_def isspace_def isdigit_def)
  have e7: "exit_status 1792 = 7"
    using exit_status_exited [of 7] by (simp add: W_EXITCODE_def)
  have m1: "main exact_fp ((demo_world 1792)\<lparr>argv := (argv (demo_world 1792))[1 := ''abc'']\<rparr>)
      = map_option (retime (atoi ''abc'')) (main exact_fp (demo_world 1792))"
    using abc by blast
  have m2: "main exact_fp ((demo_world 1792)\<lparr>argv := (argv (demo_world 1792))[1 := ''-5'']\<rparr>)
      = map_option (retime (atoi ''-5'')) (main exact_fp (demo_world 1792))"
    using neg by blast
  show ?thesis
    unfolding m1 m2 demo_run a0 a5
    by (simp add: retime_def file_at_def e7 queries_def)
qed

subsection \<open>Failing queries\<close>

lemma sampling_loop_same_waits:
  assumes "map t_wait ts' = map t_wait ts"
      and "status st' = status st" "calls st' = calls st"
  shows "rel_option (\<lambda>a b. status a = status b \<and> calls a = calls b)
           (sampling_loop fp pid ms ts' st') (sampling_loop fp pid ms ts st)"
  using assms
proof (induction ts arbitrary: ts' st st')
  case Nil
  then show ?case by simp
next
  case (Cons t ts)
  then obtain t' us where ts': "ts' = t' # us" and w: "t_wait t' = t_wait t"
    and rest: "map t_wait us = map t_wait ts"
    by (cases ts') auto
  have s: "status (iteration fp t' st') = status (iteration fp t st)"
    and c: "calls (iteration fp t' st') = calls (iteration fp t st)"
    using Cons.prems(2,3) w by (simp_all add: iteration_def)
  show ?case
  proof (cases "waitpid_ret pid (t_wait t) = pid")
    case True
    then show ?thesis using s c w by (simp add: ts' Let_def)
  next
    case False
    let ?a = "(iteration fp t' st')\<lparr>calls := calls (iteration fp t' st') @ [Sleep_ms ms]\<rparr>"
    let ?b = "(iteration fp t st)\<lparr>calls := calls (iteration fp t st) @ [Sleep_ms ms]\<rparr>"
    have "rel_option (\<lambda>a b. status a = status b \<and> calls a = calls b)
           (sampling_loop fp pid ms us ?a) (sampling_loop fp pid ms ts ?b)"
      by (rule Cons.IH [OF rest]) (simp_all add: s c)
    then show ?thesis using False w by (simp add: ts' Let_def)
  qed
qed

lemma finish_ticks: "finish fp (w\<lparr>ticks := ts\<rparr>) out = finish fp w out"
  by (rule ext) (simp add: finish_def Let_def)

lemma finish_same:
  assumes "status a = status b" "calls a = calls b"
  shows "ending (finish fp w out a) = ending (finish fp w out b)"
    and "trace (finish fp w out a) = trace (finish fp w out b)"
    and "dom (files_after (finish fp w out a)) = dom (files_after (finish fp w out b))"
  using assms by (simp_all add: finish_def Let_def)

text \<open>
  C6. One iteration makes the five queries once each, in the order power, graphics clock,
  memory clock, utilization, temperature, and appends one value to each vector: the value
  read where the query succeeded and zero where it failed, each field by its own return
  code alone. Failures change nothing else: two runs that differ only in what the
  queries answer end the same way (both return or neither does, with the same exit code),
  make the same calls, with no message and no second attempt, and leave the same files in
  existence; only the values in the report differ.
\<close>

theorem metric_fault_absorption:
  assumes "map t_wait ts' = map t_wait (ticks w)"
  shows "map_option ending (main fp (w\<lparr>ticks := ts'\<rparr>)) = map_option ending (main fp w)
       \<and> map_option trace (main fp (w\<lparr>ticks := ts'\<rparr>)) = map_option trace (main fp w)
       \<and> map_option (\<lambda>r. dom (files_after r)) (main fp (w\<lparr>ticks := ts'\<rparr>))
           = map_option (\<lambda>r. dom (files_after r)) (main fp w)
       \<and> iteration fp t st
           = st\<lparr>status := waitpid_status (status st) (t_wait t),
                powers := powers st @ [if fst (q_power t) = NVML_SUCCESS
                                       then d_div fp (d_of_int fp (uint (snd (q_power t))))
                                              (d_of_int fp 1000)
                                       else d_of_int fp 0],
                core_clocks := core_clocks st @ [if fst (q_core t) = NVML_SUCCESS
                                                 then snd (q_core t) else 0],
                mem_clocks := mem_clocks st @ [if fst (q_mem t) = NVML_SUCCESS
                                               then snd (q_mem t) else 0],
                utils := utils st @ [if fst (q_util t) = NVML_SUCCESS
                                     then snd (q_util t) else 0],
                temps := temps st @ [if fst (q_temp t) = NVML_SUCCESS
                                     then snd (q_temp t) else 0],
                calls := calls st @ [Waitpid_WNOHANG, Query PowerUsage,
                                     Query NVML_CLOCK_GRAPHICS, Query NVML_CLOCK_MEM,
                                     Query UtilizationRates, Query NVML_TEMPERATURE_GPU]\<rparr>"
proof (intro conjI)
  let ?w = "w\<lparr>ticks := ts'\<rparr>"
  let ?L' = "sampling_loop fp (fork_ret w) (atoi (argv w ! 1)) ts' loop_init"
  let ?L = "sampling_loop fp (fork_ret w) (atoi (argv w ! 1)) (ticks w) loop_init"
  have rel: "rel_option (\<lambda>a b. status a = status b \<and> calls a = calls b) ?L' ?L"
    by (rule sampling_loop_same_waits [OF assms]) simp_all
  have fin: "map_option ending (map_option (finish fp w (argv w ! 2)) ?L')
               = map_option ending (map_option (finish fp w (argv w ! 2)) ?L)
           \<and> map_option trace (map_option (finish fp w (argv w ! 2)) ?L')
               = map_option trace (map_option (finish fp w (argv w ! 2)) ?L)
           \<and> map_option (\<lambda>r. dom (files_after r)) (map_option (finish fp w (argv w ! 2)) ?L')
               = map_option (\<lambda>r. dom (files_after r)) (map_option (finish fp w (argv w ! 2)) ?L)"
  proof (cases ?L')
    case None
    then have "?L = None" using rel by (cases ?L) simp_all
    then show ?thesis using None by simp
  next
    case (Some a)
    then obtain b where b: "?L = Some b" and ab: "status a = status b" "calls a = calls b"
      using rel by (cases ?L) simp_all
    show ?thesis
      unfolding Some b using finish_same [OF ab, of fp w "argv w ! 2"] by simp
  qed
  show "map_option ending (main fp ?w) = map_option ending (main fp w)"
    unfolding main_cases [of fp ?w] main_cases [of fp w]
    using fin by (simp add: finish_ticks child_pathway_def)
  show "map_option trace (main fp ?w) = map_option trace (main fp w)"
    unfolding main_cases [of fp ?w] main_cases [of fp w]
    using fin by (simp add: finish_ticks child_pathway_def)
  show "map_option (\<lambda>r. dom (files_after r)) (main fp ?w)
           = map_option (\<lambda>r. dom (files_after r)) (main fp w)"
    unfolding main_cases [of fp ?w] main_cases [of fp w]
    using fin by (simp add: finish_ticks child_pathway_def)
qed (simp add: iteration_def power_w_def core_mhz_val_def mem_mhz_val_def gpu_util_def tval_def
      queries_def)

theorem metric_fault_absorption_witness:
  "map_option ending
     (main exact_fp ((demo_world 1792)\<lparr>ticks := [failing_tick StillRunning, failing_tick (Reaped 1792)]\<rparr>))
     = Some (Exit 7)
   \<and> map_option trace
     (main exact_fp ((demo_world 1792)\<lparr>ticks := [failing_tick StillRunning, failing_tick (Reaped 1792)]\<rparr>))
     = Some ([Fork, NvmlInit, NvmlDeviceGetHandleByIndex 0]
           @ Waitpid_WNOHANG # queries @ [Sleep_ms 100]
           @ Waitpid_WNOHANG # queries @ [Open_trunc ''out.txt'', Close_file, NvmlShutdown])
   \<and> powers (iteration exact_fp (failing_tick StillRunning) demo_state) = [120, 261 / 2, 0]
   \<and> core_clocks (iteration exact_fp (failing_tick StillRunning) demo_state) = [1500, 1500, 0]
   \<and> temps (iteration exact_fp (demo_tick StillRunning 90000) demo_state) = [60, 60, 60]
   \<and> utils (iteration exact_fp (demo_tick StillRunning 90000) demo_state) = [0, 0, 0]"
proof -
  let ?ts = "[failing_tick StillRunning, failing_tick (Reaped 1792)]"
  have w: "map t_wait ?ts = map t_wait (ticks (demo_world 1792))"
    by (simp add: failing_tick_def demo_world_def demo_tick_def)
  have e7: "exit_status 1792 = 7"
    using exit_status_exited [of 7] by (simp add: W_EXITCODE_def)
  note th = metric_fault_absorption [OF w, where fp = exact_fp]
  have a: "map_option ending (main exact_fp ((demo_world 1792)\<lparr>ticks := ?ts\<rparr>)) = Some (Exit 7)"
    using th [of "failing_tick StillRunning" demo_state] by (simp add: demo_run e7)
  have b: "map_option trace (main exact_fp ((demo_world 1792)\<lparr>ticks := ?ts\<rparr>))
     = Some ([Fork, NvmlInit, NvmlDeviceGetHandleByIndex 0]
           @ Waitpid_WNOHANG # queries @ [Sleep_ms 100]
           @ Waitpid_WNOHANG # queries @ [Open_trunc ''out.txt'', Close_file, NvmlShutdown])"
    using th [of "failing_tick StillRunning" demo_state] by (simp add: demo_run)
  have c: "powers (iteration exact_fp (failing_tick StillRunning) demo_state) = [120, 261 / 2, 0]
    \<and> core_clocks (iteration exact_fp (failing_tick StillRunning) demo_state) = [1500, 1500, 0]"
    using th [of "failing_tick StillRunning" demo_state]
    by (simp add: failing_tick_def demo_state_def exact_fp_def)
  have d: "temps (iteration exact_fp (demo_tick StillRunning 90000) demo_state) = [60, 60, 60]
    \<and> utils (iteration exact_fp (demo_tick StillRunning 90000) demo_state) = [0, 0, 0]"
    using th [of "demo_tick StillRunning 90000" demo_state]
    by (simp add: demo_tick_def demo_state_def exact_fp_def)
  show ?thesis using a b c d by blast
qed

end
